theory Spec2Isabelle
  imports Complex_Main "HOL-Library.AList"
begin

section \<open>Data model\<close>

text \<open>
  The JSON objects of \<^verbatim>\<open>dev.json\<close> and of a prediction file are Python dicts. A dict
  with a fixed set of possible keys is a record whose fields are options: \<open>None\<close> is
  an absent key, so that every \<^verbatim>\<open>KeyError\<close> of the source is a branch of the model.
  The values are taken at the type the source converts them to (\<^verbatim>\<open>int(...)\<close> of an
  integer and \<^verbatim>\<open>str(...)\<close> of a string are the identity). A dict that is iterated
  (\<^verbatim>\<open>ground_truth.items()\<close>, \<^verbatim>\<open>predictions.keys()\<close>, the counters) is an association
  list in insertion order. Python floats are modelled by exact real arithmetic.
\<close>

record entity_json =
  start_idx :: "int option"
  end_idx :: "int option"
  location :: "string option"
  text_span :: "string option"
  label :: "string option"

record relation_json =
  subject_text_span :: "string option"
  subject_label :: "string option"
  predicate :: "string option"
  object_text_span :: "string option"
  object_label :: "string option"

record article =
  entities :: "entity_json list option"
  binary_tag_based_relations :: "relation_json list option"
  ternary_tag_based_relations :: "relation_json list option"
  ternary_mention_based_relations :: "relation_json list option"

type_synonym corpus = "(string \<times> article) list"

text \<open>
  The exceptions of \<^verbatim>\<open>calculate_metrics.py\<close> and \<^verbatim>\<open>re_ensemble_inference.py\<close>:
  \<^item> \<open>KeyError k\<close>: an uncaught lookup of the missing string key \<open>k\<close> (a field name or a
    document id);
  \<^item> \<open>KeyError_counter\<close>: an uncaught lookup of a missing key of a counter dict;
  \<^item> \<open>KeyError_article pmid field\<close>: the \<^verbatim>\<open>KeyError\<close> raised with the message
    "pmid - Not able to find field ... within article";
  \<^item> \<open>KeyError_item pmid\<close>: the \<^verbatim>\<open>KeyError\<close> raised with the message
    "pmid - Not able to find one or more of the expected fields ...";
  \<^item> \<open>NameError pmid what v\<close>: the \<^verbatim>\<open>NameError\<close> "pmid - Illegal what v for ...";
  \<^item> \<open>ValueError msg\<close>, \<open>ZeroDivisionError\<close> and \<open>IndexError\<close>.
\<close>

datatype error =
    KeyError string
  | KeyError_counter
  | KeyError_article string string
  | KeyError_item string
  | NameError string string string
  | ValueError string
  | ZeroDivisionError
  | IndexError

definition and_then :: "error + 'a \<Rightarrow> ('a \<Rightarrow> error + 'b) \<Rightarrow> error + 'b" where
  "and_then m f = (case m of Inl e \<Rightarrow> Inl e | Inr x \<Rightarrow> f x)"

section \<open>The tuples of the four task variants\<close>

text \<open>
  Each function reads the fields of an item in the order of the source and stops at
  the first missing one, whose name it returns on the left.
\<close>

type_synonym ner_entry = "int \<times> int \<times> string \<times> string \<times> string"
type_synonym binary_tag = "string \<times> string"
type_synonym ternary_tag = "string \<times> string \<times> string"
type_synonym ternary_mention = "string \<times> string \<times> string \<times> string \<times> string"

definition field_then :: "string \<Rightarrow> 'a option \<Rightarrow> ('a \<Rightarrow> string + 'b) \<Rightarrow> string + 'b" where
  "field_then name v f = (case v of None \<Rightarrow> Inl name | Some x \<Rightarrow> f x)"

text \<open>\<^verbatim>\<open>NER_evaluation\<close>, lines 67-73 and 91-95, 105.\<close>

definition entity_entry :: "entity_json \<Rightarrow> string + ner_entry" where
  "entity_entry entity =
     field_then ''start_idx'' (start_idx entity) (\<lambda>s.
     field_then ''end_idx'' (end_idx entity) (\<lambda>e.
     field_then ''location'' (location entity) (\<lambda>loc.
     field_then ''text_span'' (text_span entity) (\<lambda>txt.
     field_then ''label'' (label entity) (\<lambda>l.
       Inr (s, e, loc, txt, l))))))"

definition entity_label :: "ner_entry \<Rightarrow> string" where
  "entity_label entry = (case entry of (s, e, loc, txt, l) \<Rightarrow> l)"

text \<open>\<^verbatim>\<open>RE_evaluation_subtask_621\<close>, lines 152-155 and 173-174, 184.\<close>

definition binary_tag_entry :: "relation_json \<Rightarrow> string + binary_tag" where
  "binary_tag_entry relation =
     field_then ''subject_label'' (subject_label relation) (\<lambda>s.
     field_then ''object_label'' (object_label relation) (\<lambda>ob.
       Inr (s, ob)))"

text \<open>\<^verbatim>\<open>RE_evaluation_subtask_622\<close>, lines 236-240 and 258-260, 273.\<close>

definition ternary_tag_entry :: "relation_json \<Rightarrow> string + ternary_tag" where
  "ternary_tag_entry relation =
     field_then ''subject_label'' (subject_label relation) (\<lambda>s.
     field_then ''predicate'' (predicate relation) (\<lambda>p.
     field_then ''object_label'' (object_label relation) (\<lambda>ob.
       Inr (s, p, ob))))"

text \<open>\<^verbatim>\<open>RE_evaluation_subtask_623\<close>, lines 325-334 and 350-354, 367-368.\<close>

definition ternary_mention_entry :: "relation_json \<Rightarrow> string + ternary_mention" where
  "ternary_mention_entry relation =
     field_then ''subject_text_span'' (subject_text_span relation) (\<lambda>ss.
     field_then ''subject_label'' (subject_label relation) (\<lambda>s.
     field_then ''predicate'' (predicate relation) (\<lambda>p.
     field_then ''object_text_span'' (object_text_span relation) (\<lambda>os.
     field_then ''object_label'' (object_label relation) (\<lambda>ob.
       Inr (ss, s, p, os, ob))))))"

definition mention_label :: "ternary_mention \<Rightarrow> ternary_tag" where
  "mention_label entry = (case entry of (ss, s, p, os, ob) \<Rightarrow> (s, p, ob))"

section \<open>Validation against the legal vocabularies\<close>

text \<open>
  The vocabularies are the results of \<^verbatim>\<open>load_entity_labels()\<close> and of the first
  component of \<^verbatim>\<open>load_relation_labels()\<close>; the source drops their first entry with
  \<^verbatim>\<open>[1:]\<close>, which is \<open>tl\<close> (the empty list stays empty). A check returns the
  description and the value of the first illegal field, in the order of the source.
\<close>

definition legal_entity_label :: "string list \<Rightarrow> ner_entry \<Rightarrow> (string \<times> string) option" where
  "legal_entity_label entity_labels entry =
     (if entity_label entry \<notin> set (tl entity_labels)
      then Some (''label'', entity_label entry) else None)"

definition legal_binary_tag :: "string list \<Rightarrow> binary_tag \<Rightarrow> (string \<times> string) option" where
  "legal_binary_tag entity_labels entry = (case entry of (s, ob) \<Rightarrow>
     if s \<notin> set (tl entity_labels) then Some (''subject entity label'', s)
     else if ob \<notin> set (tl entity_labels) then Some (''object entity label'', ob)
     else None)"

definition legal_ternary_tag ::
  "string list \<Rightarrow> string list \<Rightarrow> ternary_tag \<Rightarrow> (string \<times> string) option" where
  "legal_ternary_tag entity_labels relation_labels entry = (case entry of (s, p, ob) \<Rightarrow>
     if s \<notin> set (tl entity_labels) then Some (''subject entity label'', s)
     else if ob \<notin> set (tl entity_labels) then Some (''object entity label'', ob)
     else if p \<notin> set (tl relation_labels) then Some (''predicate'', p)
     else None)"

definition legal_ternary_mention ::
  "string list \<Rightarrow> string list \<Rightarrow> ternary_mention \<Rightarrow> (string \<times> string) option" where
  "legal_ternary_mention entity_labels relation_labels entry =
     legal_ternary_tag entity_labels relation_labels (mention_label entry)"

section \<open>Counting: the loops shared by the four evaluation functions\<close>

text \<open>
  The four evaluation functions are the same text up to the article field they read,
  the tuple they build from an item, the label they count it under and the legality
  checks. The loops are written once, over these four parameters:
  \<open>fname\<close> and \<open>sel\<close> (the field of the article), \<open>entry_of\<close> (the tuple, or the name of
  a missing key), \<open>label_of\<close> (the key of the counters) and \<open>legal\<close>.
\<close>

type_synonym 'k counter = "('k \<times> int) list"
type_synonym 'e gt_index = "(string \<times> 'e list) list"

text \<open>
  Lines 76-78: \<^verbatim>\<open>if label not in count: count[label] = 0\<close>, then \<^verbatim>\<open>count[label] += 1\<close>.
\<close>

definition increment_annotated :: "'k \<Rightarrow> 'k counter \<Rightarrow> 'k counter" where
  "increment_annotated l counts =
     (case map_of counts l of
        None \<Rightarrow> counts @ [(l, 0 + 1)]
      | Some c \<Rightarrow> AList.update l (c + 1) counts)"

text \<open>
  Lines 66-78, the inner loop over the items of one ground-truth article. The list of
  \<open>pmid\<close> is in the index when the loop starts (lines 64-65), so the append of line 74
  finds it.
\<close>

fun index_items ::
  "('r \<Rightarrow> string + 'e) \<Rightarrow> ('e \<Rightarrow> 'k) \<Rightarrow> string \<Rightarrow> 'r list \<Rightarrow>
   'e gt_index \<times> 'k counter \<Rightarrow> error + ('e gt_index \<times> 'k counter)" where
  "index_items entry_of label_of pmid [] st = Inr st"
| "index_items entry_of label_of pmid (item # items) (index, annotated) =
     (case entry_of item of
        Inl k \<Rightarrow> Inl (KeyError k)
      | Inr entry \<Rightarrow>
          index_items entry_of label_of pmid items
            (AList.map_entry pmid (\<lambda>es. es @ [entry]) index,
             increment_annotated (label_of entry) annotated))"

text \<open>Lines 63-78, the loop over the ground-truth articles.\<close>

fun index_ground_truth ::
  "string \<Rightarrow> (article \<Rightarrow> 'r list option) \<Rightarrow> ('r \<Rightarrow> string + 'e) \<Rightarrow> ('e \<Rightarrow> 'k) \<Rightarrow>
   corpus \<Rightarrow> 'e gt_index \<times> 'k counter \<Rightarrow> error + ('e gt_index \<times> 'k counter)" where
  "index_ground_truth fname sel entry_of label_of [] st = Inr st"
| "index_ground_truth fname sel entry_of label_of ((pmid, art) # rest) (index, annotated) =
     (let index1 = (if pmid \<notin> fst ` set index then index @ [(pmid, [])] else index)
      in case sel art of
           None \<Rightarrow> Inl (KeyError fname)
         | Some items \<Rightarrow>
             and_then (index_items entry_of label_of pmid items (index1, annotated))
               (index_ground_truth fname sel entry_of label_of rest))"

text \<open>Lines 80-81: both counters start at zero on the annotated labels.\<close>

definition zero_counts :: "'k counter \<Rightarrow> 'k counter" where
  "zero_counts annotated = map (\<lambda>l. (l, 0)) (map fst annotated)"

text \<open>
  Lines 90-107, the body of the loop over the predicted items of the document \<open>pmid\<close>:
  the fields (a missing one is the \<^verbatim>\<open>KeyError\<close> of line 97), the legality checks
  (\<^verbatim>\<open>NameError\<close>), the predicted count (guarded by \<^verbatim>\<open>label in count_predicted\<close>), the
  lookup \<^verbatim>\<open>ground_truth[pmid]\<close> (an uncaught \<^verbatim>\<open>KeyError\<close> when the document is not in
  the ground truth) and the true-positive count.
\<close>

definition score_item ::
  "('r \<Rightarrow> string + 'e) \<Rightarrow> ('e \<Rightarrow> 'k) \<Rightarrow> ('e \<Rightarrow> (string \<times> string) option) \<Rightarrow>
   'e gt_index \<Rightarrow> string \<Rightarrow> 'r \<Rightarrow> 'k counter \<times> 'k counter \<Rightarrow>
   error + ('k counter \<times> 'k counter)" where
  "score_item entry_of label_of legal index pmid item st = (case st of (predicted, true_positives) \<Rightarrow>
     (case entry_of item of
        Inl k \<Rightarrow> Inl (KeyError_item pmid)
      | Inr entry \<Rightarrow>
         (case legal entry of
            Some (what, v) \<Rightarrow> Inl (NameError pmid what v)
          | None \<Rightarrow>
             (let l = label_of entry;
                  predicted1 = (case map_of predicted l of
                                  None \<Rightarrow> predicted
                                | Some c \<Rightarrow> AList.update l (c + 1) predicted)
              in case map_of index pmid of
                   None \<Rightarrow> Inl (KeyError pmid)
                 | Some gold \<Rightarrow>
                     if entry \<in> set gold
                     then (case map_of true_positives l of
                             None \<Rightarrow> Inl KeyError_counter
                           | Some c \<Rightarrow> Inr (predicted1, AList.update l (c + 1) true_positives))
                     else Inr (predicted1, true_positives)))))"

text \<open>Lines 89-107, the loop over the predicted items of one document.\<close>

fun score_items ::
  "('r \<Rightarrow> string + 'e) \<Rightarrow> ('e \<Rightarrow> 'k) \<Rightarrow> ('e \<Rightarrow> (string \<times> string) option) \<Rightarrow>
   'e gt_index \<Rightarrow> string \<Rightarrow> 'r list \<Rightarrow> 'k counter \<times> 'k counter \<Rightarrow>
   error + ('k counter \<times> 'k counter)" where
  "score_items entry_of label_of legal index pmid [] st = Inr st"
| "score_items entry_of label_of legal index pmid (item # items) st =
     and_then (score_item entry_of label_of legal index pmid item st)
       (score_items entry_of label_of legal index pmid items)"

text \<open>Lines 83-107, the loop over the predicted documents.\<close>

fun score_documents ::
  "string \<Rightarrow> (article \<Rightarrow> 'r list option) \<Rightarrow> ('r \<Rightarrow> string + 'e) \<Rightarrow> ('e \<Rightarrow> 'k) \<Rightarrow>
   ('e \<Rightarrow> (string \<times> string) option) \<Rightarrow> 'e gt_index \<Rightarrow> corpus \<Rightarrow>
   'k counter \<times> 'k counter \<Rightarrow> error + ('k counter \<times> 'k counter)" where
  "score_documents fname sel entry_of label_of legal index [] st = Inr st"
| "score_documents fname sel entry_of label_of legal index ((pmid, art) # rest) st =
     (case sel art of
        None \<Rightarrow> Inl (KeyError_article pmid fname)
      | Some items \<Rightarrow>
          and_then (score_items entry_of label_of legal index pmid items st)
            (score_documents fname sel entry_of label_of legal index rest))"

text \<open>
  Lines 58-107: the three counters (annotated, predicted, true positives) at the end
  of the accumulation.
\<close>

definition count_all ::
  "string \<Rightarrow> (article \<Rightarrow> 'r list option) \<Rightarrow> ('r \<Rightarrow> string + 'e) \<Rightarrow> ('e \<Rightarrow> 'k) \<Rightarrow>
   ('e \<Rightarrow> (string \<times> string) option) \<Rightarrow> corpus \<Rightarrow> corpus \<Rightarrow>
   error + ('k counter \<times> 'k counter \<times> 'k counter)" where
  "count_all fname sel entry_of label_of legal ground_truth predictions =
     and_then (index_ground_truth fname sel entry_of label_of ground_truth ([], []))
       (\<lambda>(index, annotated).
          and_then (score_documents fname sel entry_of label_of legal index predictions
                      (zero_counts annotated, zero_counts annotated))
            (\<lambda>(predicted, true_positives). Inr (annotated, predicted, true_positives)))"

section \<open>Aggregation into micro and macro metrics\<close>

text \<open>
  Lines 109-138, the same text in the four functions. The constant \<^verbatim>\<open>1e-10\<close> is \<open>eps\<close>.
  Python's \<^verbatim>\<open>/\<close> raises \<^verbatim>\<open>ZeroDivisionError\<close> on a zero divisor and a lookup in a
  counter raises \<^verbatim>\<open>KeyError\<close> on a missing label.
\<close>

definition eps :: real where
  "eps = 1 / 10 ^ 10"

definition truediv :: "real \<Rightarrow> real \<Rightarrow> error + real" where
  "truediv a b = (if b = 0 then Inl ZeroDivisionError else Inr (a / b))"

definition getitem :: "'k counter \<Rightarrow> 'k \<Rightarrow> error + int" where
  "getitem counts l = (case map_of counts l of None \<Rightarrow> Inl KeyError_counter | Some c \<Rightarrow> Inr c)"

text \<open>\<^verbatim>\<open>sum(count[label] for label in labels)\<close>, lines 109-117.\<close>

fun sum_counts :: "'k counter \<Rightarrow> 'k list \<Rightarrow> int \<Rightarrow> error + int" where
  "sum_counts counts [] acc = Inr acc"
| "sum_counts counts (l # ls) acc =
     and_then (getitem counts l) (\<lambda>c. sum_counts counts ls (acc + c))"

text \<open>\<^verbatim>\<open>2 * ((p * r) / (p + r + 1e-10))\<close>, lines 121 and 132.\<close>

definition f1_score :: "real \<Rightarrow> real \<Rightarrow> error + real" where
  "f1_score p r = and_then (truediv (p * r) (p + r + eps)) (\<lambda>q. Inr (2 * q))"

text \<open>Lines 125-132, the loop over the annotated labels.\<close>

fun macro_loop ::
  "'k counter \<Rightarrow> 'k counter \<Rightarrow> 'k counter \<Rightarrow> 'k list \<Rightarrow>
   real \<times> real \<times> real \<times> nat \<Rightarrow> error + (real \<times> real \<times> real \<times> nat)" where
  "macro_loop annotated predicted true_positives [] acc = Inr acc"
| "macro_loop annotated predicted true_positives (l # ls) (precision, recall, f1, n) =
     and_then (getitem true_positives l) (\<lambda>t.
     and_then (getitem predicted l) (\<lambda>p.
     and_then (truediv (real_of_int t) (real_of_int p + eps)) (\<lambda>current_precision.
     and_then (getitem true_positives l) (\<lambda>t'.
     and_then (getitem annotated l) (\<lambda>a.
     and_then (truediv (real_of_int t') (real_of_int a + eps)) (\<lambda>current_recall.
     and_then (f1_score current_precision current_recall) (\<lambda>current_f1.
       macro_loop annotated predicted true_positives ls
         (precision + current_precision, recall + current_recall, f1 + current_f1, n + 1))))))))"

text \<open>
  Lines 109-138. The result is the tuple
  \<open>(precision, recall, f1, micro_precision, micro_recall, micro_f1)\<close> of line 138,
  the first three being the macro values.
\<close>

type_synonym metrics = "real \<times> real \<times> real \<times> real \<times> real \<times> real"

definition aggregate :: "'k counter \<Rightarrow> 'k counter \<Rightarrow> 'k counter \<Rightarrow> error + metrics" where
  "aggregate annotated predicted true_positives =
     (let labels = map fst annotated in
      and_then (sum_counts annotated labels 0) (\<lambda>count_annotated.
      and_then (sum_counts predicted labels 0) (\<lambda>count_predicted.
      and_then (sum_counts true_positives labels 0) (\<lambda>count_true_positives.
      and_then (truediv (real_of_int count_true_positives) (real_of_int count_predicted + eps))
        (\<lambda>micro_precision.
      and_then (truediv (real_of_int count_true_positives) (real_of_int count_annotated + eps))
        (\<lambda>micro_recall.
      and_then (f1_score micro_precision micro_recall) (\<lambda>micro_f1.
      and_then (macro_loop annotated predicted true_positives labels (0, 0, 0, 0))
        (\<lambda>(precision, recall, f1, n).
      and_then (truediv precision (real n)) (\<lambda>precision'.
      and_then (truediv recall (real n)) (\<lambda>recall'.
      and_then (truediv f1 (real n)) (\<lambda>f1'.
        Inr (precision', recall', f1', micro_precision, micro_recall, micro_f1))))))))))))"

section \<open>The four evaluation functions\<close>

text \<open>
  The ground truth (\<^verbatim>\<open>load_json_data\<close> of \<^verbatim>\<open>dev.json\<close>) and the vocabularies
  (\<^verbatim>\<open>load_entity_labels()\<close>, \<^verbatim>\<open>load_relation_labels()[0]\<close>) are read by helpers outside
  the repository's sources; they are parameters here. Each \<open>_counts\<close> function is the
  accumulation of the Python function of the same name (up to its line 107 and the
  like), whose counters are local variables there.
\<close>

definition NER_counts ::
  "corpus \<Rightarrow> string list \<Rightarrow> corpus \<Rightarrow> error + (string counter \<times> string counter \<times> string counter)" where
  "NER_counts ground_truth entity_labels predictions =
     count_all ''entities'' entities entity_entry entity_label
       (legal_entity_label entity_labels) ground_truth predictions"

definition NER_evaluation :: "corpus \<Rightarrow> string list \<Rightarrow> corpus \<Rightarrow> error + metrics" where
  "NER_evaluation ground_truth entity_labels predictions =
     and_then (NER_counts ground_truth entity_labels predictions)
       (\<lambda>(annotated, predicted, true_positives). aggregate annotated predicted true_positives)"

definition RE_counts_subtask_621 ::
  "corpus \<Rightarrow> string list \<Rightarrow> corpus \<Rightarrow>
   error + (binary_tag counter \<times> binary_tag counter \<times> binary_tag counter)" where
  "RE_counts_subtask_621 ground_truth entity_labels predictions =
     count_all ''binary_tag_based_relations'' binary_tag_based_relations binary_tag_entry
       (\<lambda>entry. entry) (legal_binary_tag entity_labels) ground_truth predictions"

definition RE_evaluation_subtask_621 :: "corpus \<Rightarrow> string list \<Rightarrow> corpus \<Rightarrow> error + metrics" where
  "RE_evaluation_subtask_621 ground_truth entity_labels predictions =
     and_then (RE_counts_subtask_621 ground_truth entity_labels predictions)
       (\<lambda>(annotated, predicted, true_positives). aggregate annotated predicted true_positives)"

definition RE_counts_subtask_622 ::
  "corpus \<Rightarrow> string list \<Rightarrow> string list \<Rightarrow> corpus \<Rightarrow>
   error + (ternary_tag counter \<times> ternary_tag counter \<times> ternary_tag counter)" where
  "RE_counts_subtask_622 ground_truth entity_labels relation_labels predictions =
     count_all ''ternary_tag_based_relations'' ternary_tag_based_relations ternary_tag_entry
       (\<lambda>entry. entry) (legal_ternary_tag entity_labels relation_labels)
       ground_truth predictions"

definition RE_evaluation_subtask_622 ::
  "corpus \<Rightarrow> string list \<Rightarrow> string list \<Rightarrow> corpus \<Rightarrow> error + metrics" where
  "RE_evaluation_subtask_622 ground_truth entity_labels relation_labels predictions =
     and_then (RE_counts_subtask_622 ground_truth entity_labels relation_labels predictions)
       (\<lambda>(annotated, predicted, true_positives). aggregate annotated predicted true_positives)"

definition RE_counts_subtask_623 ::
  "corpus \<Rightarrow> string list \<Rightarrow> string list \<Rightarrow> corpus \<Rightarrow>
   error + (ternary_tag counter \<times> ternary_tag counter \<times> ternary_tag counter)" where
  "RE_counts_subtask_623 ground_truth entity_labels relation_labels predictions =
     count_all ''ternary_mention_based_relations'' ternary_mention_based_relations
       ternary_mention_entry mention_label
       (legal_ternary_mention entity_labels relation_labels) ground_truth predictions"

definition RE_evaluation_subtask_623 ::
  "corpus \<Rightarrow> string list \<Rightarrow> string list \<Rightarrow> corpus \<Rightarrow> error + metrics" where
  "RE_evaluation_subtask_623 ground_truth entity_labels relation_labels predictions =
     and_then (RE_counts_subtask_623 ground_truth entity_labels relation_labels predictions)
       (\<lambda>(annotated, predicted, true_positives). aggregate annotated predicted true_positives)"

section \<open>The dispatch of \<^verbatim>\<open>compute_metrics\<close>\<close>

text \<open>
  Lines 7-54. The inference (\<^verbatim>\<open>REInference\<close>, \<^verbatim>\<open>NERInference\<close>) is outside the
  repository's sources: its result \<open>inference_results\<close> is a parameter. The function
  returns a dict of the six metrics, or, on line 31, an instance of \<^verbatim>\<open>ValueError\<close>
  as its value: \<^verbatim>\<open>return ValueError("No matching subtask")\<close>.
\<close>

record config =
  model_type :: string
  subtask :: string

record metrics_dict =
  Precision_micro :: real
  Recall_micro :: real
  F1_micro :: real
  Precision_macro :: real
  Recall_macro :: real
  F1_macro :: real

datatype returned = Metrics metrics_dict | ValueError_instance string

definition metrics_dict_of :: "metrics \<Rightarrow> returned" where
  "metrics_dict_of m = (case m of
     (precision_macro, recall_macro, f1_macro, precision_micro, recall_micro, f1_micro) \<Rightarrow>
       Metrics \<lparr>Precision_micro = precision_micro, Recall_micro = recall_micro,
                F1_micro = f1_micro, Precision_macro = precision_macro,
                Recall_macro = recall_macro, F1_macro = f1_macro\<rparr>)"

definition compute_metrics ::
  "corpus \<Rightarrow> string list \<Rightarrow> string list \<Rightarrow> config \<Rightarrow> corpus \<Rightarrow> error + returned" where
  "compute_metrics ground_truth entity_labels relation_labels cfg inference_results =
     (if model_type cfg = ''re'' then
        (if subtask cfg = ''6.2.1'' then
           and_then (RE_evaluation_subtask_621 ground_truth entity_labels inference_results)
             (\<lambda>m. Inr (metrics_dict_of m))
         else if subtask cfg = ''6.2.2'' then
           and_then (RE_evaluation_subtask_622 ground_truth entity_labels relation_labels
                       inference_results)
             (\<lambda>m. Inr (metrics_dict_of m))
         else if subtask cfg = ''6.2.3'' then
           and_then (RE_evaluation_subtask_623 ground_truth entity_labels relation_labels
                       inference_results)
             (\<lambda>m. Inr (metrics_dict_of m))
         else Inr (ValueError_instance ''No matching subtask''))
      else
        and_then (NER_evaluation ground_truth entity_labels inference_results)
          (\<lambda>m. Inr (metrics_dict_of m)))"

section \<open>The ensemble voter\<close>

text \<open>
  \<^verbatim>\<open>EnsembleREInference.perform_relation_level_inference\<close>, lines 16-51 of
  \<^verbatim>\<open>re_ensemble_inference.py\<close>. The helper \<^verbatim>\<open>subtask_string\<close> that names the field of
  the relations is outside the repository's sources: the lookup
  \<^verbatim>\<open>content[subtask_name]\<close> is the parameter \<open>sel\<close> (\<open>None\<close> when the article has no such
  field) and \<open>subtask_name\<close> its name. A key is a tuple whose first component is the
  paper id; tuples of different lengths are different constructors.
\<close>

datatype vote_key =
    Key_621 string string string
  | Key_622 string string string string
  | Key_623 string string string string string string

fun paper_of :: "vote_key \<Rightarrow> string" where
  "paper_of (Key_621 paper_id s ob) = paper_id"
| "paper_of (Key_622 paper_id s p ob) = paper_id"
| "paper_of (Key_623 paper_id ss s p os ob) = paper_id"

definition raise_KeyError :: "string + 'a \<Rightarrow> error + 'a" where
  "raise_KeyError m = (case m of Inl k \<Rightarrow> Inl (KeyError k) | Inr x \<Rightarrow> Inr x)"

text \<open>Lines 24-38.\<close>

definition relation_key :: "string \<Rightarrow> string \<Rightarrow> relation_json \<Rightarrow> error + vote_key" where
  "relation_key task paper_id relation =
     (if task = ''6.2.1'' then
        raise_KeyError
          (field_then ''subject_label'' (subject_label relation) (\<lambda>s.
           field_then ''object_label'' (object_label relation) (\<lambda>ob.
             Inr (Key_621 paper_id s ob))))
      else if task = ''6.2.2'' then
        raise_KeyError
          (field_then ''subject_label'' (subject_label relation) (\<lambda>s.
           field_then ''predicate'' (predicate relation) (\<lambda>p.
           field_then ''object_label'' (object_label relation) (\<lambda>ob.
             Inr (Key_622 paper_id s p ob)))))
      else if task = ''6.2.3'' then
        raise_KeyError
          (field_then ''subject_text_span'' (subject_text_span relation) (\<lambda>ss.
           field_then ''subject_label'' (subject_label relation) (\<lambda>s.
           field_then ''predicate'' (predicate relation) (\<lambda>p.
           field_then ''object_text_span'' (object_text_span relation) (\<lambda>os.
           field_then ''object_label'' (object_label relation) (\<lambda>ob.
             Inr (Key_623 paper_id ss s p os ob)))))))
      else Inl (ValueError (''Unsupported subtask: '' @ task)))"

text \<open>
  \<^verbatim>\<open>d[k].append(x)\<close> on a \<^verbatim>\<open>defaultdict\<close> of lists (lines 40 and 44): a new key goes
  to the end of the dict.
\<close>

definition append_at :: "'k \<Rightarrow> 'v \<Rightarrow> ('k \<times> 'v list) list \<Rightarrow> ('k \<times> 'v list) list" where
  "append_at k x d =
     (case map_of d k of
        None \<Rightarrow> d @ [(k, [x])]
      | Some xs \<Rightarrow> AList.update k (xs @ [x]) d)"

type_synonym votes = "(vote_key \<times> relation_json list) list"

text \<open>Lines 23-40, the loop over the relations of one paper.\<close>

fun vote_relations :: "string \<Rightarrow> string \<Rightarrow> relation_json list \<Rightarrow> votes \<Rightarrow> error + votes" where
  "vote_relations task paper_id [] relation_votes = Inr relation_votes"
| "vote_relations task paper_id (relation # rest) relation_votes =
     and_then (relation_key task paper_id relation) (\<lambda>key.
       vote_relations task paper_id rest (append_at key relation relation_votes))"

text \<open>Lines 22-40, the loop over the papers of one model.\<close>

fun vote_papers ::
  "string \<Rightarrow> string \<Rightarrow> (article \<Rightarrow> relation_json list option) \<Rightarrow> corpus \<Rightarrow> votes \<Rightarrow>
   error + votes" where
  "vote_papers task subtask_name sel [] relation_votes = Inr relation_votes"
| "vote_papers task subtask_name sel ((paper_id, content) # rest) relation_votes =
     (case sel content of
        None \<Rightarrow> Inl (KeyError subtask_name)
      | Some relations \<Rightarrow>
          and_then (vote_relations task paper_id relations relation_votes)
            (vote_papers task subtask_name sel rest))"

text \<open>Lines 21-40, the loop over the models.\<close>

fun vote_models ::
  "string \<Rightarrow> string \<Rightarrow> (article \<Rightarrow> relation_json list option) \<Rightarrow> corpus list \<Rightarrow> votes \<Rightarrow>
   error + votes" where
  "vote_models task subtask_name sel [] relation_votes = Inr relation_votes"
| "vote_models task subtask_name sel (model_predictions # rest) relation_votes =
     and_then (vote_papers task subtask_name sel model_predictions relation_votes)
       (vote_models task subtask_name sel rest)"

text \<open>
  Lines 42-44. \<^verbatim>\<open>math.ceil(len(self.predictions) / 2)\<close> is the ceiling of a true
  division; \<^verbatim>\<open>votes[0]\<close> raises \<^verbatim>\<open>IndexError\<close> on an empty list.
\<close>

fun majority ::
  "nat \<Rightarrow> votes \<Rightarrow> (string \<times> relation_json list) list \<Rightarrow>
   error + (string \<times> relation_json list) list" where
  "majority n [] ensemble_results = Inr ensemble_results"
| "majority n ((key, vs) # rest) ensemble_results =
     (if int (length vs) \<ge> \<lceil>real n / 2\<rceil>
      then (case vs of
              [] \<Rightarrow> Inl IndexError
            | v # _ \<Rightarrow> majority n rest (append_at (paper_of key) v ensemble_results))
      else majority n rest ensemble_results)"

text \<open>
  Lines 16-51. The result maps a paper id to the list stored under \<open>subtask_name\<close>
  in \<^verbatim>\<open>ensemble_results\<close>; it is what the method returns, or writes to \<^verbatim>\<open>save_path\<close>.
\<close>

definition perform_relation_level_inference ::
  "string \<Rightarrow> string \<Rightarrow> (article \<Rightarrow> relation_json list option) \<Rightarrow> corpus list \<Rightarrow>
   error + (string \<times> relation_json list) list" where
  "perform_relation_level_inference task subtask_name sel predictions =
     and_then (vote_models task subtask_name sel predictions [])
       (\<lambda>relation_votes. majority (length predictions) relation_votes [])"

section \<open>The metrics in the words of the specification\<close>

text \<open>
  The formulas of the specification, to be compared with \<open>aggregate\<close>: \<open>count_of\<close>
  reads a counter (zero for a label it does not have), \<open>total_count\<close> is the sum over the
  labels, \<open>smoothed_f1\<close> the harmonic combination with \<open>eps\<close> in its denominator, and
  \<open>mean\<close> the unweighted arithmetic mean.
\<close>

definition count_of :: "'k counter \<Rightarrow> 'k \<Rightarrow> int" where
  "count_of counts l = (case map_of counts l of None \<Rightarrow> 0 | Some c \<Rightarrow> c)"









text \<open>
  The tuples of the ground truth for a task variant, document after document, and
  with them the labels observed in the ground truth.
\<close>

definition gold_entries :: "(article \<Rightarrow> 'r list option) \<Rightarrow> ('r \<Rightarrow> string + 'e) \<Rightarrow> corpus \<Rightarrow> 'e list" where
  "gold_entries sel entry_of ground_truth =
     concat (map (\<lambda>(pmid, art). case sel art of
                    None \<Rightarrow> []
                  | Some items \<Rightarrow>
                      concat (map (\<lambda>item. case entry_of item of Inl k \<Rightarrow> [] | Inr e \<Rightarrow> [e]) items))
            ground_truth)"

text \<open>The tuples of the predictions for a task variant, each with its document.\<close>

definition predicted_entries ::
  "(article \<Rightarrow> 'r list option) \<Rightarrow> ('r \<Rightarrow> string + 'e) \<Rightarrow> corpus \<Rightarrow> (string \<times> 'e) list" where
  "predicted_entries sel entry_of predictions =
     concat (map (\<lambda>(pmid, art). case sel art of
                    None \<Rightarrow> []
                  | Some items \<Rightarrow>
                      concat (map (\<lambda>item. case entry_of item of
                                     Inl k \<Rightarrow> [] | Inr e \<Rightarrow> [(pmid, e)]) items))
            predictions)"

text \<open>
  The tuples of a list of items, and the list of a document in the index (empty for a
  document that the index does not have).
\<close>

definition entries_of :: "('r \<Rightarrow> string + 'e) \<Rightarrow> 'r list \<Rightarrow> 'e list" where
  "entries_of entry_of items =
     concat (map (\<lambda>item. case entry_of item of Inl k \<Rightarrow> [] | Inr e \<Rightarrow> [e]) items)"

definition gold_of :: "'e gt_index \<Rightarrow> string \<Rightarrow> 'e list" where
  "gold_of index pmid = (case map_of index pmid of None \<Rightarrow> [] | Some es \<Rightarrow> es)"

section \<open>The votes in the words of the specification\<close>

text \<open>
  The relations of all the prediction sets with their keys, in the order of the
  iteration (\<open>all_votes\<close>); the relations that carry a key, first encountered first
  (\<open>votes_for\<close>); the number of prediction sets that propose a key
  (\<open>models_proposing\<close>); and the relations of a result that carry a key (\<open>emitted\<close>).
  \<open>collect\<close> files a list of keyed values with \<open>append_at\<close>.
\<close>

definition paper_votes ::
  "string \<Rightarrow> (article \<Rightarrow> relation_json list option) \<Rightarrow> string \<times> article \<Rightarrow>
   (vote_key \<times> relation_json) list" where
  "paper_votes task sel paper = (case paper of (paper_id, content) \<Rightarrow>
     (case sel content of
        None \<Rightarrow> []
      | Some relations \<Rightarrow>
          concat (map (\<lambda>relation. case relation_key task paper_id relation of
                         Inl e \<Rightarrow> [] | Inr key \<Rightarrow> [(key, relation)]) relations)))"

definition model_votes ::
  "string \<Rightarrow> (article \<Rightarrow> relation_json list option) \<Rightarrow> corpus \<Rightarrow>
   (vote_key \<times> relation_json) list" where
  "model_votes task sel model_predictions = concat (map (paper_votes task sel) model_predictions)"

definition all_votes ::
  "string \<Rightarrow> (article \<Rightarrow> relation_json list option) \<Rightarrow> corpus list \<Rightarrow>
   (vote_key \<times> relation_json) list" where
  "all_votes task sel predictions = concat (map (model_votes task sel) predictions)"

definition votes_for ::
  "string \<Rightarrow> (article \<Rightarrow> relation_json list option) \<Rightarrow> corpus list \<Rightarrow> vote_key \<Rightarrow>
   relation_json list" where
  "votes_for task sel predictions key =
     map snd (filter (\<lambda>kv. fst kv = key) (all_votes task sel predictions))"

definition models_proposing ::
  "string \<Rightarrow> (article \<Rightarrow> relation_json list option) \<Rightarrow> corpus list \<Rightarrow> vote_key \<Rightarrow> nat" where
  "models_proposing task sel predictions key =
     length (filter (\<lambda>model_predictions. key \<in> fst ` set (model_votes task sel model_predictions))
               predictions)"

definition emitted ::
  "string \<Rightarrow> (string \<times> relation_json list) list \<Rightarrow> vote_key \<Rightarrow> relation_json list" where
  "emitted task ensemble_results key =
     filter (\<lambda>relation. relation_key task (paper_of key) relation = Inr key)
       (case map_of ensemble_results (paper_of key) of None \<Rightarrow> [] | Some relations \<Rightarrow> relations)"

definition collect :: "('k \<times> 'v) list \<Rightarrow> ('k \<times> 'v list) list \<Rightarrow> ('k \<times> 'v list) list" where
  "collect kvs d = foldl (\<lambda>d kv. append_at (fst kv) (snd kv) d) d kvs"

text \<open>
  The first relation of every key that has enough votes, with the paper of the key.
\<close>

definition representatives :: "nat \<Rightarrow> votes \<Rightarrow> (string \<times> relation_json) list" where
  "representatives n relation_votes =
     concat (map (\<lambda>kv. if \<lceil>real n / 2\<rceil> \<le> int (length (snd kv))
                        then map (\<lambda>v. (paper_of (fst kv), v)) (take 1 (snd kv)) else [])
              relation_votes)"

section \<open>A small corpus\<close>

text \<open>
  One annotated document, with one entity and one relation in each of the three
  views, and vocabularies whose first entry is the reserved one.
\<close>

definition demo_entity_labels :: "string list" where
  "demo_entity_labels = [''O'', ''gene'', ''DDF'', ''chemical'']"

definition demo_relation_labels :: "string list" where
  "demo_relation_labels = [''O'', ''target'', ''influence'']"

definition demo_entity :: "string \<Rightarrow> entity_json" where
  "demo_entity l = \<lparr>start_idx = Some 0, end_idx = Some 5, location = Some ''title'',
                     text_span = Some ''BRCA1'', label = Some l\<rparr>"

definition demo_relation :: "string \<Rightarrow> string \<Rightarrow> string \<Rightarrow> relation_json" where
  "demo_relation s p ob = \<lparr>subject_text_span = Some ''BRCA1'', subject_label = Some s,
                            predicate = Some p, object_text_span = Some ''cancer'',
                            object_label = Some ob\<rparr>"

definition demo_article :: "entity_json list \<Rightarrow> relation_json list \<Rightarrow> article" where
  "demo_article es rs = \<lparr>entities = Some es, binary_tag_based_relations = Some rs,
                          ternary_tag_based_relations = Some rs,
                          ternary_mention_based_relations = Some rs\<rparr>"

definition demo_ground_truth :: corpus where
  "demo_ground_truth =
     [(''D1'', demo_article [demo_entity ''gene''] [demo_relation ''gene'' ''target'' ''DDF''])]"

definition demo_predictions :: corpus where
  "demo_predictions =
     [(''D1'', demo_article
         [demo_entity ''gene'', demo_entity ''gene'', demo_entity ''chemical'']
         [demo_relation ''gene'' ''target'' ''DDF'', demo_relation ''gene'' ''target'' ''DDF'',
          demo_relation ''chemical'' ''target'' ''DDF''])]"


text \<open>Predictions for a document "X" that the ground truth does not have.\<close>

definition demo_absent_empty :: corpus where
  "demo_absent_empty = [(''X'', demo_article [] [])]"

definition demo_absent :: corpus where
  "demo_absent =
     [(''X'', demo_article [demo_entity ''gene''] [demo_relation ''gene'' ''target'' ''DDF''])]"

text \<open>
  An item field that carries a value outside the legal vocabulary, which is the
  vocabulary without its first, reserved entry.
\<close>

definition illegal_value :: "string list \<Rightarrow> string option \<Rightarrow> bool" where
  "illegal_value vocabulary v = (case v of None \<Rightarrow> False | Some x \<Rightarrow> x \<notin> set (tl vocabulary))"

text \<open>
  Predictions with an item labelled "XYZ", after a legal item and after a document
  that the ground truth does not have.
\<close>

definition demo_legal_article :: article where
  "demo_legal_article =
     demo_article [demo_entity ''gene''] [demo_relation ''gene'' ''target'' ''DDF'']"

definition demo_illegal_article :: article where
  "demo_illegal_article =
     demo_article [demo_entity ''gene'', demo_entity ''XYZ'']
       [demo_relation ''gene'' ''target'' ''DDF'', demo_relation ''XYZ'' ''target'' ''DDF'']"

definition demo_illegal :: corpus where
  "demo_illegal = [(''D1'', demo_illegal_article)]"

definition demo_illegal_after_absent :: corpus where
  "demo_illegal_after_absent = [(''X'', demo_legal_article), (''D1'', demo_illegal_article)]"




text \<open>
  Prediction sets of four models for the binary-tag variant. In the first group one
  model lists the same relation twice and the others propose nothing. In the second
  group the key ("D1", "gene", "DDF") is proposed by the first and the third model,
  with different text spans, and the key ("D1", "chemical", "DDF") by the first only.
\<close>

definition demo_other_relation :: relation_json where
  "demo_other_relation = \<lparr>subject_text_span = Some ''TP53'', subject_label = Some ''gene'',
                           predicate = Some ''influence'', object_text_span = Some ''tumour'',
                           object_label = Some ''DDF''\<rparr>"

definition demo_one_of_four :: "corpus list" where
  "demo_one_of_four =
     [ [(''D1'', demo_article [] [demo_relation ''gene'' ''target'' ''DDF'',
                                 demo_relation ''gene'' ''target'' ''DDF''])],
      [], [], []]"

definition demo_two_of_four :: "corpus list" where
  "demo_two_of_four =
     [ [(''D1'', demo_article [] [demo_relation ''gene'' ''target'' ''DDF'',
                                 demo_relation ''chemical'' ''target'' ''DDF''])],
      [],
      [(''D1'', demo_article [] [demo_other_relation])],
      []]"

section \<open>Basic facts\<close>

lemma and_then_Inl [simp]: "and_then (Inl e) f = Inl e"
  by (simp add: and_then_def)

lemma and_then_Inr [simp]: "and_then (Inr x) f = f x"
  by (simp add: and_then_def)

lemma and_then_eq_Inr: "and_then m f = Inr y \<longleftrightarrow> (\<exists>x. m = Inr x \<and> f x = Inr y)"
  by (cases m) simp_all

lemma score_item_Inr:
  assumes "score_item entry_of label_of legal index pmid item (pred, tp) = Inr (pred', tp')"
  shows "\<exists>entry gold. entry_of item = Inr entry \<and> legal entry = None \<and>
           map_of index pmid = Some gold \<and>
           pred' = (case map_of pred (label_of entry) of None \<Rightarrow> pred
                    | Some c \<Rightarrow> AList.update (label_of entry) (c + 1) pred) \<and>
           (entry \<in> set gold \<longrightarrow>
              (\<exists>c. map_of tp (label_of entry) = Some c \<and>
                   tp' = AList.update (label_of entry) (c + 1) tp)) \<and>
           (entry \<notin> set gold \<longrightarrow> tp' = tp)"
  using assms
  by (auto simp: score_item_def Let_def split: sum.splits option.splits if_splits)

lemma score_items_invariant:
  assumes step: "\<And>item st st'. score_item E L V index pmid item st = Inr st' \<Longrightarrow> P st \<Longrightarrow> P st'"
  shows "score_items E L V index pmid items st = Inr st' \<Longrightarrow> P st \<Longrightarrow> P st'"
proof (induction items arbitrary: st)
  case Nil
  then show ?case by simp
next
  case (Cons item items)
  from Cons.prems(1) obtain st1 where
    s1: "score_item E L V index pmid item st = Inr st1" and
    s2: "score_items E L V index pmid items st1 = Inr st'"
    by (auto simp: and_then_eq_Inr)
  from step [OF s1 Cons.prems(2)] have "P st1" .
  with Cons.IH [OF s2] show ?case .
qed

lemma score_documents_invariant:
  assumes step: "\<And>pmid item st st'. score_item E L V index pmid item st = Inr st' \<Longrightarrow> P st \<Longrightarrow> P st'"
  shows "score_documents fname sel E L V index docs st = Inr st' \<Longrightarrow> P st \<Longrightarrow> P st'"
proof (induction docs arbitrary: st)
  case Nil
  then show ?case by simp
next
  case (Cons doc docs)
  obtain pmid art where doc: "doc = (pmid, art)" by (cases doc)
  from Cons.prems(1) doc obtain items st1 where
    "sel art = Some items" and
    s1: "score_items E L V index pmid items st = Inr st1" and
    s2: "score_documents fname sel E L V index docs st1 = Inr st'"
    by (auto simp: and_then_eq_Inr split: option.splits)
  from score_items_invariant [of E L V index pmid P, OF step s1 Cons.prems(2)] have "P st1" .
  with Cons.IH [OF s2] show ?case .
qed

lemma count_all_Inr:
  assumes "count_all fname sel E L V ground_truth predictions = Inr (annotated, predicted, true_positives)"
  shows "\<exists>index. index_ground_truth fname sel E L ground_truth ([], []) = Inr (index, annotated) \<and>
           score_documents fname sel E L V index predictions
             (zero_counts annotated, zero_counts annotated) = Inr (predicted, true_positives)"
  using assms
  by (auto simp: count_all_def and_then_eq_Inr)

lemma map_fst_update_present:
  "map_of d k = Some c \<Longrightarrow> map fst (AList.update k v d) = map fst d"
proof -
  assume "map_of d k = Some c"
  then have "k \<in> set (map fst d)"
    by (metis map_of_eq_None_iff option.distinct(1) set_map)
  then show ?thesis by (simp add: update_keys)
qed

lemma score_item_keys:
  assumes "score_item E L V index pmid item st = Inr st'"
    and "map fst (fst st) = ks \<and> map fst (snd st) = ks"
  shows "map fst (fst st') = ks \<and> map fst (snd st') = ks"
proof -
  obtain pred tp pred' tp' where st: "st = (pred, tp)" "st' = (pred', tp')"
    by (cases st, cases st') auto
  from score_item_Inr [OF assms(1) [unfolded st]] assms(2) st show ?thesis
    by (auto simp: map_fst_update_present split: option.splits)
qed

lemma score_item_dominated:
  assumes "score_item E L V index pmid item st = Inr st'"
    and "\<forall>k c. map_of (snd st) k = Some c \<longrightarrow> (\<exists>c'. map_of (fst st) k = Some c' \<and> c \<le> c')"
  shows "\<forall>k c. map_of (snd st') k = Some c \<longrightarrow> (\<exists>c'. map_of (fst st') k = Some c' \<and> c \<le> c')"
proof -
  obtain pred tp pred' tp' where st: "st = (pred, tp)" "st' = (pred', tp')"
    by (cases st, cases st') auto
  from score_item_Inr [OF assms(1) [unfolded st]] obtain entry gold where
    p: "pred' = (case map_of pred (L entry) of None \<Rightarrow> pred
                    | Some c \<Rightarrow> AList.update (L entry) (c + 1) pred)" and
    t1: "entry \<in> set gold \<longrightarrow>
              (\<exists>c. map_of tp (L entry) = Some c \<and> tp' = AList.update (L entry) (c + 1) tp)" and
    t2: "entry \<notin> set gold \<longrightarrow> tp' = tp"
    by blast
  from assms(2) st have inv: "\<And>k c. map_of tp k = Some c \<Longrightarrow> \<exists>c'. map_of pred k = Some c' \<and> c \<le> c'"
    by simp
  have "\<exists>c'. map_of pred' k = Some c' \<and> c \<le> c'" if h: "map_of tp' k = Some c" for k c
  proof (cases "entry \<in> set gold")
    case True
    with t1 obtain c0 where c0: "map_of tp (L entry) = Some c0" "tp' = AList.update (L entry) (c0 + 1) tp"
      by blast
    from inv [OF c0(1)] obtain p0 where p0: "map_of pred (L entry) = Some p0" "c0 \<le> p0" by blast
    with p have p': "pred' = AList.update (L entry) (p0 + 1) pred" by simp
    show ?thesis
    proof (cases "k = L entry")
      case True
      with h c0 p' p0 show ?thesis by (simp add: update_conv')
    next
      case False
      with h c0 have "map_of tp k = Some c" by (simp add: update_conv')
      from inv [OF this] False p' show ?thesis by (simp add: update_conv')
    qed
  next
    case False
    with t2 h have "map_of tp k = Some c" by simp
    from inv [OF this] obtain c' where c': "map_of pred k = Some c'" "c \<le> c'" by blast
    show ?thesis
    proof (cases "map_of pred (L entry)")
      case None
      with p c' show ?thesis by simp
    next
      case (Some p0)
      with p have p': "pred' = AList.update (L entry) (p0 + 1) pred" by simp
      show ?thesis
      proof (cases "k = L entry")
        case True
        with c' Some p' show ?thesis by (simp add: update_conv')
      next
        case False
        with c' p' show ?thesis by (simp add: update_conv')
      qed
    qed
  qed
  with st show ?thesis by simp
qed

lemma zero_counts_keys: "map fst (zero_counts annotated) = map fst annotated"
  by (simp add: zero_counts_def comp_def)

lemma count_all_keys:
  assumes "count_all fname sel E L V ground_truth predictions = Inr (annotated, predicted, true_positives)"
  shows "map fst predicted = map fst annotated \<and> map fst true_positives = map fst annotated"
proof -
  from count_all_Inr [OF assms] obtain index where
    s: "score_documents fname sel E L V index predictions
             (zero_counts annotated, zero_counts annotated) = Inr (predicted, true_positives)"
    by blast
  have "map fst (fst (predicted, true_positives)) = map fst annotated \<and>
        map fst (snd (predicted, true_positives)) = map fst annotated"
    by (rule score_documents_invariant [where P = "\<lambda>st. map fst (fst st) = map fst annotated \<and> map fst (snd st) = map fst annotated", OF _ s])
       (auto dest: score_item_keys simp: zero_counts_keys)
  then show ?thesis by simp
qed

lemma count_all_dominated:
  assumes "count_all fname sel E L V ground_truth predictions = Inr (annotated, predicted, true_positives)"
    and "map_of true_positives k = Some c"
  shows "\<exists>c'. map_of predicted k = Some c' \<and> c \<le> c'"
proof -
  from count_all_Inr [OF assms(1)] obtain index where
    s: "score_documents fname sel E L V index predictions
             (zero_counts annotated, zero_counts annotated) = Inr (predicted, true_positives)"
    by blast
  have "\<forall>k c. map_of (snd (predicted, true_positives)) k = Some c \<longrightarrow>
          (\<exists>c'. map_of (fst (predicted, true_positives)) k = Some c' \<and> c \<le> c')"
    by (rule score_documents_invariant [where P = "\<lambda>st. \<forall>k c. map_of (snd st) k = Some c \<longrightarrow>
          (\<exists>c'. map_of (fst st) k = Some c' \<and> c \<le> c')", OF _ s])
       (auto dest: score_item_dominated)
  with assms(2) show ?thesis by simp
qed

section \<open>Predicted counts and true-positive counts\<close>

text \<open>
  C5 (predicted count at least the true-positive count). In each of the four task
  variants, when the accumulation ends without an error, the three counters have the
  same keys in the same order (the labels annotated in the ground truth), and for
  every label with a true-positive count the predicted count of that label is at
  least as large.
\<close>

theorem predicted_count_ge_true_positive_count:
  "(NER_counts ground_truth entity_labels predictions = Inr (a1, p1, t1) \<longrightarrow>
      map fst p1 = map fst a1 \<and> map fst t1 = map fst a1 \<and>
      (\<forall>k c. map_of t1 k = Some c \<longrightarrow> (\<exists>c'. map_of p1 k = Some c' \<and> c \<le> c'))) \<and>
   (RE_counts_subtask_621 ground_truth entity_labels predictions = Inr (a2, p2, t2) \<longrightarrow>
      map fst p2 = map fst a2 \<and> map fst t2 = map fst a2 \<and>
      (\<forall>k c. map_of t2 k = Some c \<longrightarrow> (\<exists>c'. map_of p2 k = Some c' \<and> c \<le> c'))) \<and>
   (RE_counts_subtask_622 ground_truth entity_labels relation_labels predictions =
      Inr (a3, p3, t3) \<longrightarrow>
      map fst p3 = map fst a3 \<and> map fst t3 = map fst a3 \<and>
      (\<forall>k c. map_of t3 k = Some c \<longrightarrow> (\<exists>c'. map_of p3 k = Some c' \<and> c \<le> c'))) \<and>
   (RE_counts_subtask_623 ground_truth entity_labels relation_labels predictions =
      Inr (a4, p4, t4) \<longrightarrow>
      map fst p4 = map fst a4 \<and> map fst t4 = map fst a4 \<and>
      (\<forall>k c. map_of t4 k = Some c \<longrightarrow> (\<exists>c'. map_of p4 k = Some c' \<and> c \<le> c')))"
  unfolding NER_counts_def RE_counts_subtask_621_def RE_counts_subtask_622_def
    RE_counts_subtask_623_def
  by (intro conjI impI allI)
     (erule count_all_keys [THEN conjunct1] count_all_keys [THEN conjunct2] count_all_dominated, assumption?)+

theorem predicted_count_ge_true_positive_count_witness:
  "NER_counts demo_ground_truth demo_entity_labels demo_predictions =
     Inr ([(''gene'', 1)], [(''gene'', 2)], [(''gene'', 2)]) \<and>
   RE_counts_subtask_621 demo_ground_truth demo_entity_labels demo_predictions =
     Inr ([((''gene'', ''DDF''), 1)], [((''gene'', ''DDF''), 2)], [((''gene'', ''DDF''), 2)]) \<and>
   RE_counts_subtask_622 demo_ground_truth demo_entity_labels demo_relation_labels
     demo_predictions =
     Inr ([((''gene'', ''target'', ''DDF''), 1)], [((''gene'', ''target'', ''DDF''), 2)],
          [((''gene'', ''target'', ''DDF''), 2)]) \<and>
   RE_counts_subtask_623 demo_ground_truth demo_entity_labels demo_relation_labels
     demo_predictions =
     Inr ([((''gene'', ''target'', ''DDF''), 1)], [((''gene'', ''target'', ''DDF''), 2)],
          [((''gene'', ''target'', ''DDF''), 2)]) \<and>
   (\<exists>c'. map_of [(''gene'', 2::int)] ''gene'' = Some c' \<and> 2 \<le> c') \<and>
   (\<exists>c'. map_of [((''gene'', ''DDF''), 2::int)] (''gene'', ''DDF'') = Some c' \<and> 2 \<le> c') \<and>
   (\<exists>c'. map_of [((''gene'', ''target'', ''DDF''), 2::int)] (''gene'', ''target'', ''DDF'') =
           Some c' \<and> 2 \<le> c')"
proof -
  have n: "NER_counts demo_ground_truth demo_entity_labels demo_predictions =
     Inr ([(''gene'', 1)], [(''gene'', 2)], [(''gene'', 2)])"
    by code_simp
  have b: "RE_counts_subtask_621 demo_ground_truth demo_entity_labels demo_predictions =
     Inr ([((''gene'', ''DDF''), 1)], [((''gene'', ''DDF''), 2)], [((''gene'', ''DDF''), 2)])"
    by code_simp
  have t: "RE_counts_subtask_622 demo_ground_truth demo_entity_labels demo_relation_labels
     demo_predictions =
     Inr ([((''gene'', ''target'', ''DDF''), 1)], [((''gene'', ''target'', ''DDF''), 2)],
          [((''gene'', ''target'', ''DDF''), 2)])"
    by code_simp
  have m: "RE_counts_subtask_623 demo_ground_truth demo_entity_labels demo_relation_labels
     demo_predictions =
     Inr ([((''gene'', ''target'', ''DDF''), 1)], [((''gene'', ''target'', ''DDF''), 2)],
          [((''gene'', ''target'', ''DDF''), 2)])"
    by code_simp
  note th = predicted_count_ge_true_positive_count
    [of demo_ground_truth demo_entity_labels demo_predictions
        "[(''gene'', 1)]" "[(''gene'', 2)]" "[(''gene'', 2)]"
        "[((''gene'', ''DDF''), 1)]" "[((''gene'', ''DDF''), 2)]" "[((''gene'', ''DDF''), 2)]"
        demo_relation_labels
        "[((''gene'', ''target'', ''DDF''), 1)]" "[((''gene'', ''target'', ''DDF''), 2)]"
        "[((''gene'', ''target'', ''DDF''), 2)]"
        "[((''gene'', ''target'', ''DDF''), 1)]" "[((''gene'', ''target'', ''DDF''), 2)]"
        "[((''gene'', ''target'', ''DDF''), 2)]"]
  from th n b t m show ?thesis by simp
qed

section \<open>True positives and exact matches\<close>

lemma entity_entry_Inr:
  "entity_entry entity = Inr entry \<longleftrightarrow>
     (\<exists>s e loc txt l. entry = (s, e, loc, txt, l) \<and> start_idx entity = Some s \<and>
        end_idx entity = Some e \<and> location entity = Some loc \<and>
        text_span entity = Some txt \<and> label entity = Some l)"
  by (auto simp: entity_entry_def field_then_def split: option.splits)

lemma binary_tag_entry_Inr:
  "binary_tag_entry relation = Inr entry \<longleftrightarrow>
     (\<exists>s ob. entry = (s, ob) \<and> subject_label relation = Some s \<and>
        object_label relation = Some ob)"
  by (auto simp: binary_tag_entry_def field_then_def split: option.splits)

lemma ternary_tag_entry_Inr:
  "ternary_tag_entry relation = Inr entry \<longleftrightarrow>
     (\<exists>s p ob. entry = (s, p, ob) \<and> subject_label relation = Some s \<and>
        predicate relation = Some p \<and> object_label relation = Some ob)"
  by (auto simp: ternary_tag_entry_def field_then_def split: option.splits)

lemma ternary_mention_entry_Inr:
  "ternary_mention_entry relation = Inr entry \<longleftrightarrow>
     (\<exists>ss s p os ob. entry = (ss, s, p, os, ob) \<and> subject_text_span relation = Some ss \<and>
        subject_label relation = Some s \<and> predicate relation = Some p \<and>
        object_text_span relation = Some os \<and> object_label relation = Some ob)"
  by (auto simp: ternary_mention_entry_def field_then_def split: option.splits)




section \<open>Predicted counts\<close>

lemma score_item_predicted:
  assumes "score_item E L V index pmid item (pred, tp) = Inr (pred', tp')"
  shows "\<exists>entry. E item = Inr entry \<and> V entry = None \<and>
     (\<forall>c. map_of pred (L entry) = Some c \<longrightarrow> map_of pred' (L entry) = Some (c + 1)) \<and>
     (map_of pred (L entry) = None \<longrightarrow> pred' = pred) \<and>
     (map_of tp (L entry) = None \<longrightarrow> tp' = tp) \<and>
     (\<forall>k. k \<noteq> L entry \<longrightarrow> map_of pred' k = map_of pred k) \<and>
     map fst pred' = map fst pred \<and> map fst tp' = map fst tp"
proof -
  from score_item_Inr [OF assms] obtain entry gold where
    e: "E item = Inr entry" "V entry = None" and
    p: "pred' = (case map_of pred (L entry) of None \<Rightarrow> pred
                    | Some c \<Rightarrow> AList.update (L entry) (c + 1) pred)" and
    t1: "entry \<in> set gold \<longrightarrow>
              (\<exists>c. map_of tp (L entry) = Some c \<and> tp' = AList.update (L entry) (c + 1) tp)" and
    t2: "entry \<notin> set gold \<longrightarrow> tp' = tp"
    by blast
  from p have 1: "\<forall>c. map_of pred (L entry) = Some c \<longrightarrow> map_of pred' (L entry) = Some (c + 1)"
    by (simp add: update_conv')
  from p have 2: "map_of pred (L entry) = None \<longrightarrow> pred' = pred" by simp
  from t1 t2 have 3: "map_of tp (L entry) = None \<longrightarrow> tp' = tp" by auto
  from p have 4: "\<forall>k. k \<noteq> L entry \<longrightarrow> map_of pred' k = map_of pred k"
    by (simp add: update_conv' split: option.splits)
  from p have 5: "map fst pred' = map fst pred"
    by (simp add: map_fst_update_present split: option.splits)
  from t1 t2 have 6: "map fst tp' = map fst tp"
    by (cases "entry \<in> set gold") (auto simp: map_fst_update_present)
  show ?thesis
    apply (rule exI [of _ entry])
    using e 1 2 3 4 5 6 apply (intro conjI)
           apply assumption+
    done
qed




section \<open>Predictions for a document that is not in the ground truth\<close>

lemma index_items_keys:
  "index_items E L pmid items (index, ann) = Inr (index', ann') \<Longrightarrow>
   fst ` set index' = fst ` set index"
proof (induction items arbitrary: index ann)
  case Nil
  then show ?case by simp
next
  case (Cons item items)
  from Cons.prems obtain entry where
    "index_items E L pmid items
       (AList.map_entry pmid (\<lambda>es. es @ [entry]) index, increment_annotated (L entry) ann) =
     Inr (index', ann')"
    by (auto split: sum.splits)
  from Cons.IH [OF this] show ?case by (simp add: dom_map_entry)
qed

lemma index_ground_truth_keys:
  "index_ground_truth fname sel E L ground_truth (index, ann) = Inr (index', ann') \<Longrightarrow>
   fst ` set index' = fst ` set index \<union> fst ` set ground_truth"
proof (induction ground_truth arbitrary: index ann)
  case Nil
  then show ?case by simp
next
  case (Cons doc ground_truth)
  obtain pmid art where doc: "doc = (pmid, art)" by (cases doc)
  define index1 where "index1 = (if pmid \<notin> fst ` set index then index @ [(pmid, [])] else index)"
  from Cons.prems doc obtain items index2 ann2 where
    i: "index_items E L pmid items (index1, ann) = Inr (index2, ann2)" and
    r: "index_ground_truth fname sel E L ground_truth (index2, ann2) = Inr (index', ann')"
    by (auto simp: Let_def index1_def and_then_eq_Inr split: option.splits)
  have "fst ` set index1 = insert pmid (fst ` set index)"
    by (auto simp: index1_def)
  with index_items_keys [OF i] Cons.IH [OF r] doc show ?case by auto
qed

lemma score_item_missing_document:
  "map_of index pmid = None \<Longrightarrow> \<exists>e. score_item E L V index pmid item st = Inl e"
  by (cases st) (auto simp: score_item_def Let_def split: sum.splits option.splits)

lemma score_items_missing_document:
  assumes "map_of index pmid = None" and "items \<noteq> []"
  shows "\<exists>e. score_items E L V index pmid items st = Inl e"
proof -
  from assms(2) obtain item rest where items: "items = item # rest" by (cases items) auto
  from score_item_missing_document [OF assms(1), of E L V item st] obtain e where
    "score_item E L V index pmid item st = Inl e" by blast
  with items show ?thesis by simp
qed

lemma and_then_Inl_cases: "(\<exists>e. and_then m f = Inl e) \<longleftrightarrow> (\<exists>e. m = Inl e) \<or> (\<exists>x e. m = Inr x \<and> f x = Inl e)"
  by (cases m) auto

lemma score_documents_missing_document:
  assumes "map_of index pmid = None" and "(pmid, art) \<in> set docs" and "sel art \<noteq> Some []"
  shows "\<exists>e. score_documents fname sel E L V index docs st = Inl e"
  using assms(2)
proof (induction docs arbitrary: st)
  case Nil
  then show ?case by simp
next
  case (Cons doc docs)
  obtain pmid' art' where doc: "doc = (pmid', art')" by (cases doc)
  show ?case
  proof (cases "sel art'")
    case None
    with doc show ?thesis by simp
  next
    case (Some items)
    show ?thesis
    proof (cases "score_items E L V index pmid' items st")
      case (Inl e)
      with doc Some show ?thesis by simp
    next
      case (Inr st1)
      have "doc \<noteq> (pmid, art)"
      proof
        assume "doc = (pmid, art)"
        with doc Some assms(3) have "items \<noteq> []" and "pmid' = pmid" by auto
        from score_items_missing_document [OF assms(1) this(1), of E L V st] Inr this(2)
        show False by simp
      qed
      with Cons.prems have "(pmid, art) \<in> set docs" by simp
      from Cons.IH [OF this, of st1] doc Some Inr show ?thesis by simp
    qed
  qed
qed

lemma count_all_missing_document:
  assumes "pmid \<notin> fst ` set ground_truth" and "(pmid, art) \<in> set predictions"
    and "sel art \<noteq> Some []"
  shows "\<exists>e. count_all fname sel E L V ground_truth predictions = Inl e"
proof (cases "index_ground_truth fname sel E L ground_truth ([], [])")
  case (Inl e)
  then show ?thesis by (simp add: count_all_def)
next
  case (Inr st)
  obtain index ann where st: "st = (index, ann)" by (cases st)
  from index_ground_truth_keys [OF Inr [unfolded st]] assms(1) have "map_of index pmid = None"
    by (simp add: map_of_eq_None_iff)
  from score_documents_missing_document
         [where sel = sel and fname = fname and E = E and L = L and V = V and
            st = "(zero_counts ann, zero_counts ann)", OF this assms(2,3)]
  obtain e where "score_documents fname sel E L V index predictions (zero_counts ann, zero_counts ann) = Inl e"
    by blast
  with Inr st show ?thesis by (simp add: count_all_def)
qed

text \<open>
  C7 (a predicted document missing from the ground truth). As stated the claim fails:
  the list of the document is looked up inside the loop over its predicted items
  (\<^verbatim>\<open>if entry in ground_truth_NER[pmid]\<close>), so a predicted document without items is
  never looked up. The document "X" is not in the ground truth, and the four
  evaluations of predictions that hold it with empty lists return metrics.
\<close>

theorem absent_document_without_items_is_scored:
  "''X'' \<notin> fst ` set demo_ground_truth \<and>
   NER_evaluation demo_ground_truth demo_entity_labels demo_absent_empty =
     Inr (0, 0, 0, 0, 0, 0) \<and>
   RE_evaluation_subtask_621 demo_ground_truth demo_entity_labels demo_absent_empty =
     Inr (0, 0, 0, 0, 0, 0) \<and>
   RE_evaluation_subtask_622 demo_ground_truth demo_entity_labels demo_relation_labels
     demo_absent_empty = Inr (0, 0, 0, 0, 0, 0) \<and>
   RE_evaluation_subtask_623 demo_ground_truth demo_entity_labels demo_relation_labels
     demo_absent_empty = Inr (0, 0, 0, 0, 0, 0)"
  by code_simp

text \<open>
  C7, amended. When the predictions hold a document that is not in the ground truth
  and the field read by the task variant is not an empty list in that document, the
  evaluation returns no metrics: it ends with an error (the missing-document
  \<^verbatim>\<open>KeyError\<close> at the first item of the document that passes the checks, or an
  earlier error).
\<close>

theorem absent_document_with_items_fails:
  assumes "pmid \<notin> fst ` set ground_truth" and "(pmid, art) \<in> set predictions"
  shows "(entities art \<noteq> Some [] \<longrightarrow>
            (\<exists>e. NER_evaluation ground_truth entity_labels predictions = Inl e)) \<and>
         (binary_tag_based_relations art \<noteq> Some [] \<longrightarrow>
            (\<exists>e. RE_evaluation_subtask_621 ground_truth entity_labels predictions = Inl e)) \<and>
         (ternary_tag_based_relations art \<noteq> Some [] \<longrightarrow>
            (\<exists>e. RE_evaluation_subtask_622 ground_truth entity_labels relation_labels
                   predictions = Inl e)) \<and>
         (ternary_mention_based_relations art \<noteq> Some [] \<longrightarrow>
            (\<exists>e. RE_evaluation_subtask_623 ground_truth entity_labels relation_labels
                   predictions = Inl e))"
proof (intro conjI impI)
  assume "entities art \<noteq> Some []"
  from count_all_missing_document [where sel = entities, OF assms this]
  show "\<exists>e. NER_evaluation ground_truth entity_labels predictions = Inl e"
    unfolding NER_evaluation_def NER_counts_def by (metis and_then_Inl)
next
  assume "binary_tag_based_relations art \<noteq> Some []"
  from count_all_missing_document [where sel = binary_tag_based_relations, OF assms this]
  show "\<exists>e. RE_evaluation_subtask_621 ground_truth entity_labels predictions = Inl e"
    unfolding RE_evaluation_subtask_621_def RE_counts_subtask_621_def by (metis and_then_Inl)
next
  assume "ternary_tag_based_relations art \<noteq> Some []"
  from count_all_missing_document [where sel = ternary_tag_based_relations, OF assms this]
  show "\<exists>e. RE_evaluation_subtask_622 ground_truth entity_labels relation_labels
                   predictions = Inl e"
    unfolding RE_evaluation_subtask_622_def RE_counts_subtask_622_def by (metis and_then_Inl)
next
  assume "ternary_mention_based_relations art \<noteq> Some []"
  from count_all_missing_document [where sel = ternary_mention_based_relations, OF assms this]
  show "\<exists>e. RE_evaluation_subtask_623 ground_truth entity_labels relation_labels
                   predictions = Inl e"
    unfolding RE_evaluation_subtask_623_def RE_counts_subtask_623_def by (metis and_then_Inl)
qed

theorem absent_document_with_items_fails_witness:
  "''X'' \<notin> fst ` set demo_ground_truth \<and>
   (''X'', demo_article [demo_entity ''gene''] [demo_relation ''gene'' ''target'' ''DDF''])
     \<in> set demo_absent \<and>
   entities (demo_article [demo_entity ''gene''] [demo_relation ''gene'' ''target'' ''DDF''])
     \<noteq> Some [] \<and>
   binary_tag_based_relations
     (demo_article [demo_entity ''gene''] [demo_relation ''gene'' ''target'' ''DDF''])
     \<noteq> Some [] \<and>
   ternary_tag_based_relations
     (demo_article [demo_entity ''gene''] [demo_relation ''gene'' ''target'' ''DDF''])
     \<noteq> Some [] \<and>
   ternary_mention_based_relations
     (demo_article [demo_entity ''gene''] [demo_relation ''gene'' ''target'' ''DDF''])
     \<noteq> Some [] \<and>
   (\<exists>e. NER_evaluation demo_ground_truth demo_entity_labels demo_absent = Inl e) \<and>
   (\<exists>e. RE_evaluation_subtask_621 demo_ground_truth demo_entity_labels demo_absent = Inl e) \<and>
   (\<exists>e. RE_evaluation_subtask_622 demo_ground_truth demo_entity_labels demo_relation_labels
          demo_absent = Inl e) \<and>
   (\<exists>e. RE_evaluation_subtask_623 demo_ground_truth demo_entity_labels demo_relation_labels
          demo_absent = Inl e) \<and>
   NER_evaluation demo_ground_truth demo_entity_labels demo_absent = Inl (KeyError ''X'') \<and>
   RE_evaluation_subtask_623 demo_ground_truth demo_entity_labels demo_relation_labels
     demo_absent = Inl (KeyError ''X'')"
proof -
  have a: "''X'' \<notin> fst ` set demo_ground_truth"
    by (simp add: demo_ground_truth_def)
  have b: "(''X'', demo_article [demo_entity ''gene''] [demo_relation ''gene'' ''target'' ''DDF''])
     \<in> set demo_absent"
    by (simp add: demo_absent_def)
  have c: "entities (demo_article [demo_entity ''gene''] [demo_relation ''gene'' ''target'' ''DDF''])
     \<noteq> Some []"
    "binary_tag_based_relations
     (demo_article [demo_entity ''gene''] [demo_relation ''gene'' ''target'' ''DDF''])
     \<noteq> Some []"
    "ternary_tag_based_relations
     (demo_article [demo_entity ''gene''] [demo_relation ''gene'' ''target'' ''DDF''])
     \<noteq> Some []"
    "ternary_mention_based_relations
     (demo_article [demo_entity ''gene''] [demo_relation ''gene'' ''target'' ''DDF''])
     \<noteq> Some []"
    by (simp_all add: demo_article_def)
  have d: "NER_evaluation demo_ground_truth demo_entity_labels demo_absent = Inl (KeyError ''X'')"
    "RE_evaluation_subtask_623 demo_ground_truth demo_entity_labels demo_relation_labels
     demo_absent = Inl (KeyError ''X'')"
    by code_simp+
  from absent_document_with_items_fails
         [OF a b, of demo_entity_labels demo_relation_labels] a b c d
  show ?thesis by blast
qed

section \<open>Illegal labels\<close>

lemma score_item_illegal:
  assumes "\<And>entry. E item = Inr entry \<Longrightarrow> V entry \<noteq> None"
  shows "\<exists>e. score_item E L V index pmid item st = Inl e"
proof (cases "E item")
  case (Inl k)
  then show ?thesis by (cases st) (simp add: score_item_def)
next
  case (Inr entry)
  from assms [OF this] obtain what v where "V entry = Some (what, v)" by auto
  with Inr show ?thesis by (cases st) (simp add: score_item_def)
qed

lemma score_items_failing_item:
  assumes "item \<in> set items"
    and "\<And>st. \<exists>e. score_item E L V index pmid item st = Inl e"
  shows "\<exists>e. score_items E L V index pmid items st = Inl e"
  using assms(1)
proof (induction items arbitrary: st)
  case Nil
  then show ?case by simp
next
  case (Cons x items)
  show ?case
  proof (cases "score_item E L V index pmid x st")
    case (Inl e)
    then show ?thesis by simp
  next
    case (Inr st1)
    with assms(2) [of st] have "x \<noteq> item" by auto
    with Cons.prems have "item \<in> set items" by auto
    from Cons.IH [OF this, of st1] Inr show ?thesis by simp
  qed
qed

lemma score_documents_failing_item:
  assumes "(pmid, art) \<in> set docs" and "sel art = Some items" and "item \<in> set items"
    and "\<And>st. \<exists>e. score_item E L V index pmid item st = Inl e"
  shows "\<exists>e. score_documents fname sel E L V index docs st = Inl e"
  using assms(1)
proof (induction docs arbitrary: st)
  case Nil
  then show ?case by simp
next
  case (Cons doc docs)
  obtain pmid' art' where doc: "doc = (pmid', art')" by (cases doc)
  show ?case
  proof (cases "sel art'")
    case None
    with doc show ?thesis by simp
  next
    case (Some items')
    show ?thesis
    proof (cases "score_items E L V index pmid' items' st")
      case (Inl e)
      with doc Some show ?thesis by simp
    next
      case (Inr st1)
      have "doc \<noteq> (pmid, art)"
      proof
        assume "doc = (pmid, art)"
        with doc Some assms(2) have "items' = items" and "pmid' = pmid" by auto
        with score_items_failing_item [of item items E L V index pmid st, OF assms(3,4)] Inr
        show False by simp
      qed
      with Cons.prems have "(pmid, art) \<in> set docs" by simp
      from Cons.IH [OF this, of st1] doc Some Inr show ?thesis by simp
    qed
  qed
qed

lemma count_all_illegal_item:
  assumes "(pmid, art) \<in> set predictions" and "sel art = Some items" and "item \<in> set items"
    and "\<And>entry. E item = Inr entry \<Longrightarrow> V entry \<noteq> None"
  shows "\<exists>e. count_all fname sel E L V ground_truth predictions = Inl e"
proof (cases "index_ground_truth fname sel E L ground_truth ([], [])")
  case (Inl e)
  then show ?thesis by (simp add: count_all_def)
next
  case (Inr st)
  obtain index ann where st: "st = (index, ann)" by (cases st)
  have "\<And>st. \<exists>e. score_item E L V index pmid item st = Inl e"
    by (rule score_item_illegal) (rule assms(4))
  from score_documents_failing_item
         [where sel = sel and fname = fname and E = E and L = L and V = V and index = index and
            st = "(zero_counts ann, zero_counts ann)", OF assms(1-3) this]
  obtain e where "score_documents fname sel E L V index predictions (zero_counts ann, zero_counts ann) = Inl e"
    by blast
  with Inr st show ?thesis by (simp add: count_all_def)
qed

lemma score_items_append:
  "score_items E L V index pmid (xs @ ys) st =
   and_then (score_items E L V index pmid xs st) (score_items E L V index pmid ys)"
proof (induction xs arbitrary: st)
  case Nil
  then show ?case by simp
next
  case (Cons x xs)
  then show ?case by (cases "score_item E L V index pmid x st") simp_all
qed

lemma score_documents_append:
  "score_documents fname sel E L V index (xs @ ys) st =
   and_then (score_documents fname sel E L V index xs st)
     (score_documents fname sel E L V index ys)"
proof (induction xs arbitrary: st)
  case Nil
  then show ?case by simp
next
  case (Cons x xs)
  obtain pmid art where x: "x = (pmid, art)" by (cases x)
  show ?case
  proof (cases "sel art")
    case None
    with x show ?thesis by simp
  next
    case (Some items)
    with x Cons.IH show ?thesis
      by (cases "score_items E L V index pmid items st") simp_all
  qed
qed

lemma count_all_first_failure:
  assumes prefix: "count_all fname sel E L V ground_truth (before @ [(pmid, art1)]) = Inr (a, p, t)"
    and "sel art1 = Some items1" and "sel art = Some (items1 @ item # items2)"
    and "E item = Inr entry" and "V entry = Some (what, v)"
  shows "count_all fname sel E L V ground_truth (before @ (pmid, art) # after) =
         Inl (NameError pmid what v)"
proof -
  from count_all_Inr [OF prefix] obtain index where
    i: "index_ground_truth fname sel E L ground_truth ([], []) = Inr (index, a)" and
    s: "score_documents fname sel E L V index (before @ [(pmid, art1)])
          (zero_counts a, zero_counts a) = Inr (p, t)"
    by blast
  from s obtain st1 where
    b: "score_documents fname sel E L V index before (zero_counts a, zero_counts a) = Inr st1" and
    d: "score_items E L V index pmid items1 st1 = Inr (p, t)"
    using assms(2)
    by (auto simp: score_documents_append and_then_eq_Inr split: sum.splits)
  have "score_item E L V index pmid item (p, t) = Inl (NameError pmid what v)"
    using assms(4,5) by (simp add: score_item_def)
  then have "score_items E L V index pmid (items1 @ item # items2) st1 =
             Inl (NameError pmid what v)"
    using d by (simp add: score_items_append)
  then have "score_documents fname sel E L V index (before @ (pmid, art) # after)
               (zero_counts a, zero_counts a) = Inl (NameError pmid what v)"
    using b assms(3) by (simp add: score_documents_append)
  with i show ?thesis by (simp add: count_all_def)
qed

lemma and_then_fails:
  "\<exists>e. m = Inl e \<Longrightarrow> \<exists>e. and_then m f = Inl e"
  by auto

lemma NER_illegal_fails:
  assumes "(pmid, art) \<in> set predictions" "entities art = Some es" "entity \<in> set es"
    and ill: "illegal_value entity_labels (label entity)"
  shows "\<exists>e. NER_evaluation ground_truth entity_labels predictions = Inl e"
proof -
  have "\<And>entry. entity_entry entity = Inr entry \<Longrightarrow>
          legal_entity_label entity_labels entry \<noteq> None"
    using ill
    by (auto simp: entity_entry_Inr legal_entity_label_def entity_label_def illegal_value_def)
  from count_all_illegal_item [where sel = entities and E = entity_entry, OF assms(1-3) this]
  show ?thesis
    unfolding NER_evaluation_def NER_counts_def by (rule and_then_fails)
qed

lemma NER_illegal_error:
  assumes pre: "NER_counts ground_truth entity_labels (before @ [(pmid, art1)]) = Inr (a, p', t)"
    and "entities art1 = Some es1"
    and "entities art = Some (es1 @ entity # es2)"
    and "entity_entry entity = Inr (b, e, loc, txt, l)"
    and ill: "illegal_value entity_labels (label entity)"
  shows "NER_evaluation ground_truth entity_labels (before @ (pmid, art) # after) =
        Inl (NameError pmid ''label'' l)"
proof -
  define w where "w = (''label'', l)"
  from assms(4) ill have "legal_entity_label entity_labels (b, e, loc, txt, l) = Some w"
    by (auto simp: w_def entity_entry_Inr legal_entity_label_def entity_label_def illegal_value_def)
  then have l: "legal_entity_label entity_labels (b, e, loc, txt, l) = Some (fst w, snd w)"
    by simp
  have w: "NameError pmid (fst w) (snd w) = (NameError pmid ''label'' l)"
    by (simp add: w_def)
  from count_all_first_failure [OF pre [unfolded NER_counts_def] assms(2,3,4) l, of after] w
  show ?thesis
    unfolding NER_evaluation_def NER_counts_def by simp
qed

lemma RE_621_illegal_fails:
  assumes "(pmid, art) \<in> set predictions" "binary_tag_based_relations art = Some rs" "relation \<in> set rs"
    and ill: "illegal_value entity_labels (subject_label relation) \<or>
      illegal_value entity_labels (object_label relation)"
  shows "\<exists>e. RE_evaluation_subtask_621 ground_truth entity_labels predictions = Inl e"
proof -
  have "\<And>entry. binary_tag_entry relation = Inr entry \<Longrightarrow>
          legal_binary_tag entity_labels entry \<noteq> None"
    using ill
    by (auto simp: binary_tag_entry_Inr legal_binary_tag_def illegal_value_def)
  from count_all_illegal_item [where sel = binary_tag_based_relations and E = binary_tag_entry, OF assms(1-3) this]
  show ?thesis
    unfolding RE_evaluation_subtask_621_def RE_counts_subtask_621_def by (rule and_then_fails)
qed

lemma RE_621_illegal_error:
  assumes pre: "RE_counts_subtask_621 ground_truth entity_labels (before @ [(pmid, art1)]) = Inr (a, p', t)"
    and "binary_tag_based_relations art1 = Some rs1"
    and "binary_tag_based_relations art = Some (rs1 @ relation # rs2)"
    and "binary_tag_entry relation = Inr (s, ob)"
    and ill: "illegal_value entity_labels (subject_label relation) \<or>
      illegal_value entity_labels (object_label relation)"
  shows "RE_evaluation_subtask_621 ground_truth entity_labels (before @ (pmid, art) # after) =
        Inl (if s \<notin> set (tl entity_labels) then NameError pmid ''subject entity label'' s
            else NameError pmid ''object entity label'' ob)"
proof -
  define w where "w = (if s \<notin> set (tl entity_labels) then (''subject entity label'', s)
                 else (''object entity label'', ob))"
  from assms(4) ill have "legal_binary_tag entity_labels (s, ob) = Some w"
    by (auto simp: w_def binary_tag_entry_Inr legal_binary_tag_def illegal_value_def)
  then have l: "legal_binary_tag entity_labels (s, ob) = Some (fst w, snd w)"
    by simp
  have w: "NameError pmid (fst w) (snd w) = (if s \<notin> set (tl entity_labels) then NameError pmid ''subject entity label'' s
            else NameError pmid ''object entity label'' ob)"
    by (simp add: w_def)
  from count_all_first_failure [OF pre [unfolded RE_counts_subtask_621_def] assms(2,3,4) l, of after] w
  show ?thesis
    unfolding RE_evaluation_subtask_621_def RE_counts_subtask_621_def by simp
qed

lemma RE_622_illegal_fails:
  assumes "(pmid, art) \<in> set predictions" "ternary_tag_based_relations art = Some rs" "relation \<in> set rs"
    and ill: "illegal_value entity_labels (subject_label relation) \<or>
      illegal_value entity_labels (object_label relation) \<or>
      illegal_value relation_labels (predicate relation)"
  shows "\<exists>e. RE_evaluation_subtask_622 ground_truth entity_labels relation_labels predictions = Inl e"
proof -
  have "\<And>entry. ternary_tag_entry relation = Inr entry \<Longrightarrow>
          legal_ternary_tag entity_labels relation_labels entry \<noteq> None"
    using ill
    by (auto simp: ternary_tag_entry_Inr legal_ternary_tag_def illegal_value_def)
  from count_all_illegal_item [where sel = ternary_tag_based_relations and E = ternary_tag_entry, OF assms(1-3) this]
  show ?thesis
    unfolding RE_evaluation_subtask_622_def RE_counts_subtask_622_def by (rule and_then_fails)
qed

lemma RE_622_illegal_error:
  assumes pre: "RE_counts_subtask_622 ground_truth entity_labels relation_labels (before @ [(pmid, art1)]) = Inr (a, p', t)"
    and "ternary_tag_based_relations art1 = Some rs1"
    and "ternary_tag_based_relations art = Some (rs1 @ relation # rs2)"
    and "ternary_tag_entry relation = Inr (s, p, ob)"
    and ill: "illegal_value entity_labels (subject_label relation) \<or>
      illegal_value entity_labels (object_label relation) \<or>
      illegal_value relation_labels (predicate relation)"
  shows "RE_evaluation_subtask_622 ground_truth entity_labels relation_labels (before @ (pmid, art) # after) =
        Inl (if s \<notin> set (tl entity_labels) then NameError pmid ''subject entity label'' s
            else if ob \<notin> set (tl entity_labels)
            then NameError pmid ''object entity label'' ob
            else NameError pmid ''predicate'' p)"
proof -
  define w where "w = (if s \<notin> set (tl entity_labels) then (''subject entity label'', s)
                 else if ob \<notin> set (tl entity_labels) then (''object entity label'', ob)
                 else (''predicate'', p))"
  from assms(4) ill have "legal_ternary_tag entity_labels relation_labels (s, p, ob) = Some w"
    by (auto simp: w_def ternary_tag_entry_Inr legal_ternary_tag_def illegal_value_def)
  then have l: "legal_ternary_tag entity_labels relation_labels (s, p, ob) = Some (fst w, snd w)"
    by simp
  have w: "NameError pmid (fst w) (snd w) = (if s \<notin> set (tl entity_labels) then NameError pmid ''subject entity label'' s
            else if ob \<notin> set (tl entity_labels)
            then NameError pmid ''object entity label'' ob
            else NameError pmid ''predicate'' p)"
    by (simp add: w_def)
  from count_all_first_failure [OF pre [unfolded RE_counts_subtask_622_def] assms(2,3,4) l, of after] w
  show ?thesis
    unfolding RE_evaluation_subtask_622_def RE_counts_subtask_622_def by simp
qed

lemma RE_623_illegal_fails:
  assumes "(pmid, art) \<in> set predictions" "ternary_mention_based_relations art = Some rs" "relation \<in> set rs"
    and ill: "illegal_value entity_labels (subject_label relation) \<or>
      illegal_value entity_labels (object_label relation) \<or>
      illegal_value relation_labels (predicate relation)"
  shows "\<exists>e. RE_evaluation_subtask_623 ground_truth entity_labels relation_labels predictions = Inl e"
proof -
  have "\<And>entry. ternary_mention_entry relation = Inr entry \<Longrightarrow>
          legal_ternary_mention entity_labels relation_labels entry \<noteq> None"
    using ill
    by (auto simp: ternary_mention_entry_Inr legal_ternary_mention_def legal_ternary_tag_def mention_label_def illegal_value_def)
  from count_all_illegal_item [where sel = ternary_mention_based_relations and E = ternary_mention_entry, OF assms(1-3) this]
  show ?thesis
    unfolding RE_evaluation_subtask_623_def RE_counts_subtask_623_def by (rule and_then_fails)
qed

lemma RE_623_illegal_error:
  assumes pre: "RE_counts_subtask_623 ground_truth entity_labels relation_labels (before @ [(pmid, art1)]) = Inr (a, p', t)"
    and "ternary_mention_based_relations art1 = Some rs1"
    and "ternary_mention_based_relations art = Some (rs1 @ relation # rs2)"
    and "ternary_mention_entry relation = Inr (ss, s, p, os, ob)"
    and ill: "illegal_value entity_labels (subject_label relation) \<or>
      illegal_value entity_labels (object_label relation) \<or>
      illegal_value relation_labels (predicate relation)"
  shows "RE_evaluation_subtask_623 ground_truth entity_labels relation_labels (before @ (pmid, art) # after) =
        Inl (if s \<notin> set (tl entity_labels) then NameError pmid ''subject entity label'' s
            else if ob \<notin> set (tl entity_labels)
            then NameError pmid ''object entity label'' ob
            else NameError pmid ''predicate'' p)"
proof -
  define w where "w = (if s \<notin> set (tl entity_labels) then (''subject entity label'', s)
                 else if ob \<notin> set (tl entity_labels) then (''object entity label'', ob)
                 else (''predicate'', p))"
  from assms(4) ill have "legal_ternary_mention entity_labels relation_labels (ss, s, p, os, ob) = Some w"
    by (auto simp: w_def ternary_mention_entry_Inr legal_ternary_mention_def legal_ternary_tag_def mention_label_def illegal_value_def)
  then have l: "legal_ternary_mention entity_labels relation_labels (ss, s, p, os, ob) = Some (fst w, snd w)"
    by simp
  have w: "NameError pmid (fst w) (snd w) = (if s \<notin> set (tl entity_labels) then NameError pmid ''subject entity label'' s
            else if ob \<notin> set (tl entity_labels)
            then NameError pmid ''object entity label'' ob
            else NameError pmid ''predicate'' p)"
    by (simp add: w_def)
  from count_all_first_failure [OF pre [unfolded RE_counts_subtask_623_def] assms(2,3,4) l, of after] w
  show ?thesis
    unfolding RE_evaluation_subtask_623_def RE_counts_subtask_623_def by simp
qed

text \<open>
  C6 (an illegal label fails the run). As stated the claim fails on one point: the
  run stops at the first failing item in the order of the iteration, so the error
  is about that item. In the first run below the item labelled "XYZ" comes after a
  document that the ground truth does not have, and the error is the \<^verbatim>\<open>KeyError\<close> of
  that document; in the second run, the error names the subject label "XYZ" of a
  relation whose object label "ABC" is illegal too.
\<close>

theorem illegal_label_after_another_failure:
  "illegal_value demo_entity_labels (label (demo_entity ''XYZ'')) \<and>
   NER_evaluation demo_ground_truth demo_entity_labels demo_illegal_after_absent =
     Inl (KeyError ''X'') \<and>
   illegal_value demo_entity_labels (object_label (demo_relation ''XYZ'' ''target'' ''ABC'')) \<and>
   RE_evaluation_subtask_621 demo_ground_truth demo_entity_labels
     [(''D1'', demo_article [] [demo_relation ''XYZ'' ''target'' ''ABC''])] =
     Inl (NameError ''D1'' ''subject entity label'' ''XYZ'')"
  by code_simp

text \<open>
  C6, amended. In each of the four task variants: when a predicted item carries a
  label (for 6.2.2 and 6.2.3 also a predicate) that is not in the vocabulary without
  its first entry, the evaluation returns no metrics, it ends with an error. When the
  run over the predictions up to that item ends without an error and the item has
  all its fields, the error is the \<^verbatim>\<open>NameError\<close> with the id of the item's document
  and the first illegal value of the item, in the order subject label, object label,
  predicate.
\<close>

theorem illegal_label_fails_the_run:
  "((pmid, art) \<in> set predictions \<longrightarrow> entities art = Some es \<longrightarrow>
      entity \<in> set es \<longrightarrow>
      (illegal_value entity_labels (label entity)) \<longrightarrow>
      (\<exists>e. NER_evaluation ground_truth entity_labels predictions = Inl e)) \<and>
   (NER_counts ground_truth entity_labels (docs_before @ [(pmid, art_cut)]) = Inr (annotated_e, predicted_e, tp_e) \<longrightarrow>
      entities art_cut = Some es_before \<longrightarrow>
      entities art = Some (es_before @ entity # es_after) \<longrightarrow>
      entity_entry entity = Inr (b, e, loc, tx, l) \<longrightarrow>
      (illegal_value entity_labels (label entity)) \<longrightarrow>
      NER_evaluation ground_truth entity_labels (docs_before @ (pmid, art) # docs_after) =
        Inl (NameError pmid ''label'' l)) \<and>
   ((pmid, art) \<in> set predictions \<longrightarrow> binary_tag_based_relations art = Some rs \<longrightarrow>
      relation \<in> set rs \<longrightarrow>
      (illegal_value entity_labels (subject_label relation) \<or>
      illegal_value entity_labels (object_label relation)) \<longrightarrow>
      (\<exists>e. RE_evaluation_subtask_621 ground_truth entity_labels predictions = Inl e)) \<and>
   (RE_counts_subtask_621 ground_truth entity_labels (docs_before @ [(pmid, art_cut)]) = Inr (annotated_b, predicted_b, tp_b) \<longrightarrow>
      binary_tag_based_relations art_cut = Some rs_before \<longrightarrow>
      binary_tag_based_relations art = Some (rs_before @ relation # rs_after) \<longrightarrow>
      binary_tag_entry relation = Inr (s, ob) \<longrightarrow>
      (illegal_value entity_labels (subject_label relation) \<or>
      illegal_value entity_labels (object_label relation)) \<longrightarrow>
      RE_evaluation_subtask_621 ground_truth entity_labels (docs_before @ (pmid, art) # docs_after) =
        Inl (if s \<notin> set (tl entity_labels) then NameError pmid ''subject entity label'' s
            else NameError pmid ''object entity label'' ob)) \<and>
   ((pmid, art) \<in> set predictions \<longrightarrow> ternary_tag_based_relations art = Some rs \<longrightarrow>
      relation \<in> set rs \<longrightarrow>
      (illegal_value entity_labels (subject_label relation) \<or>
      illegal_value entity_labels (object_label relation) \<or>
      illegal_value relation_labels (predicate relation)) \<longrightarrow>
      (\<exists>e. RE_evaluation_subtask_622 ground_truth entity_labels relation_labels predictions = Inl e)) \<and>
   (RE_counts_subtask_622 ground_truth entity_labels relation_labels (docs_before @ [(pmid, art_cut)]) = Inr (annotated_t, predicted_t, tp_t) \<longrightarrow>
      ternary_tag_based_relations art_cut = Some rs_before \<longrightarrow>
      ternary_tag_based_relations art = Some (rs_before @ relation # rs_after) \<longrightarrow>
      ternary_tag_entry relation = Inr (s, p, ob) \<longrightarrow>
      (illegal_value entity_labels (subject_label relation) \<or>
      illegal_value entity_labels (object_label relation) \<or>
      illegal_value relation_labels (predicate relation)) \<longrightarrow>
      RE_evaluation_subtask_622 ground_truth entity_labels relation_labels (docs_before @ (pmid, art) # docs_after) =
        Inl (if s \<notin> set (tl entity_labels) then NameError pmid ''subject entity label'' s
            else if ob \<notin> set (tl entity_labels)
            then NameError pmid ''object entity label'' ob
            else NameError pmid ''predicate'' p)) \<and>
   ((pmid, art) \<in> set predictions \<longrightarrow> ternary_mention_based_relations art = Some rs \<longrightarrow>
      relation \<in> set rs \<longrightarrow>
      (illegal_value entity_labels (subject_label relation) \<or>
      illegal_value entity_labels (object_label relation) \<or>
      illegal_value relation_labels (predicate relation)) \<longrightarrow>
      (\<exists>e. RE_evaluation_subtask_623 ground_truth entity_labels relation_labels predictions = Inl e)) \<and>
   (RE_counts_subtask_623 ground_truth entity_labels relation_labels (docs_before @ [(pmid, art_cut)]) = Inr (annotated_m, predicted_m, tp_m) \<longrightarrow>
      ternary_mention_based_relations art_cut = Some rs_before \<longrightarrow>
      ternary_mention_based_relations art = Some (rs_before @ relation # rs_after) \<longrightarrow>
      ternary_mention_entry relation = Inr (ss, s, p, os, ob) \<longrightarrow>
      (illegal_value entity_labels (subject_label relation) \<or>
      illegal_value entity_labels (object_label relation) \<or>
      illegal_value relation_labels (predicate relation)) \<longrightarrow>
      RE_evaluation_subtask_623 ground_truth entity_labels relation_labels (docs_before @ (pmid, art) # docs_after) =
        Inl (if s \<notin> set (tl entity_labels) then NameError pmid ''subject entity label'' s
            else if ob \<notin> set (tl entity_labels)
            then NameError pmid ''object entity label'' ob
            else NameError pmid ''predicate'' p))"
  apply (intro conjI impI)
         apply (erule (3) NER_illegal_fails)
        apply (erule (4) NER_illegal_error)
         apply (erule (3) RE_621_illegal_fails)
        apply (erule (4) RE_621_illegal_error)
         apply (erule (3) RE_622_illegal_fails)
        apply (erule (4) RE_622_illegal_error)
         apply (erule (3) RE_623_illegal_fails)
        apply (erule (4) RE_623_illegal_error)
  done

theorem illegal_label_fails_the_run_witness:
  "((''D1'', demo_illegal_article) \<in> set demo_illegal \<and>
   entities demo_illegal_article = Some ([demo_entity ''gene''] @ demo_entity ''XYZ'' # []) \<and>
   binary_tag_based_relations demo_illegal_article =
     Some ([demo_relation ''gene'' ''target'' ''DDF''] @
           demo_relation ''XYZ'' ''target'' ''DDF'' # []) \<and>
   ternary_tag_based_relations demo_illegal_article =
     Some ([demo_relation ''gene'' ''target'' ''DDF''] @
           demo_relation ''XYZ'' ''target'' ''DDF'' # []) \<and>
   ternary_mention_based_relations demo_illegal_article =
     Some ([demo_relation ''gene'' ''target'' ''DDF''] @
           demo_relation ''XYZ'' ''target'' ''DDF'' # []) \<and>
   entities demo_legal_article = Some [demo_entity ''gene''] \<and>
   binary_tag_based_relations demo_legal_article =
     Some [demo_relation ''gene'' ''target'' ''DDF''] \<and>
   ternary_tag_based_relations demo_legal_article =
     Some [demo_relation ''gene'' ''target'' ''DDF''] \<and>
   ternary_mention_based_relations demo_legal_article =
     Some [demo_relation ''gene'' ''target'' ''DDF''] \<and>
   illegal_value demo_entity_labels (label (demo_entity ''XYZ'')) \<and>
   illegal_value demo_entity_labels (subject_label (demo_relation ''XYZ'' ''target'' ''DDF'')) \<and>
   entity_entry (demo_entity ''XYZ'') = Inr (0, 5, ''title'', ''BRCA1'', ''XYZ'') \<and>
   binary_tag_entry (demo_relation ''XYZ'' ''target'' ''DDF'') = Inr (''XYZ'', ''DDF'') \<and>
   ternary_tag_entry (demo_relation ''XYZ'' ''target'' ''DDF'') =
     Inr (''XYZ'', ''target'', ''DDF'') \<and>
   ternary_mention_entry (demo_relation ''XYZ'' ''target'' ''DDF'') =
     Inr (''BRCA1'', ''XYZ'', ''target'', ''cancer'', ''DDF'') \<and>
   NER_counts demo_ground_truth demo_entity_labels ([] @ [(''D1'', demo_legal_article)]) =
     Inr ([(''gene'', 1)], [(''gene'', 1)], [(''gene'', 1)]) \<and>
   RE_counts_subtask_621 demo_ground_truth demo_entity_labels
     ([] @ [(''D1'', demo_legal_article)]) =
     Inr ([((''gene'', ''DDF''), 1)], [((''gene'', ''DDF''), 1)], [((''gene'', ''DDF''), 1)]) \<and>
   RE_counts_subtask_622 demo_ground_truth demo_entity_labels demo_relation_labels
     ([] @ [(''D1'', demo_legal_article)]) =
     Inr ([((''gene'', ''target'', ''DDF''), 1)], [((''gene'', ''target'', ''DDF''), 1)],
          [((''gene'', ''target'', ''DDF''), 1)]) \<and>
   RE_counts_subtask_623 demo_ground_truth demo_entity_labels demo_relation_labels
     ([] @ [(''D1'', demo_legal_article)]) =
     Inr ([((''gene'', ''target'', ''DDF''), 1)], [((''gene'', ''target'', ''DDF''), 1)],
          [((''gene'', ''target'', ''DDF''), 1)])) \<and>
   NER_evaluation demo_ground_truth demo_entity_labels
     ([] @ (''D1'', demo_illegal_article) # []) =
     Inl (NameError ''D1'' ''label'' ''XYZ'') \<and>
   RE_evaluation_subtask_621 demo_ground_truth demo_entity_labels
     ([] @ (''D1'', demo_illegal_article) # []) =
     Inl (NameError ''D1'' ''subject entity label'' ''XYZ'') \<and>
   RE_evaluation_subtask_622 demo_ground_truth demo_entity_labels demo_relation_labels
     ([] @ (''D1'', demo_illegal_article) # []) = Inl (NameError ''D1'' ''subject entity label'' ''XYZ'') \<and>
   RE_evaluation_subtask_623 demo_ground_truth demo_entity_labels demo_relation_labels
     ([] @ (''D1'', demo_illegal_article) # []) = Inl (NameError ''D1'' ''subject entity label'' ''XYZ'')"
proof -
  have h: "(''D1'', demo_illegal_article) \<in> set demo_illegal \<and>
   entities demo_illegal_article = Some ([demo_entity ''gene''] @ demo_entity ''XYZ'' # []) \<and>
   binary_tag_based_relations demo_illegal_article =
     Some ([demo_relation ''gene'' ''target'' ''DDF''] @
           demo_relation ''XYZ'' ''target'' ''DDF'' # []) \<and>
   ternary_tag_based_relations demo_illegal_article =
     Some ([demo_relation ''gene'' ''target'' ''DDF''] @
           demo_relation ''XYZ'' ''target'' ''DDF'' # []) \<and>
   ternary_mention_based_relations demo_illegal_article =
     Some ([demo_relation ''gene'' ''target'' ''DDF''] @
           demo_relation ''XYZ'' ''target'' ''DDF'' # []) \<and>
   entities demo_legal_article = Some [demo_entity ''gene''] \<and>
   binary_tag_based_relations demo_legal_article =
     Some [demo_relation ''gene'' ''target'' ''DDF''] \<and>
   ternary_tag_based_relations demo_legal_article =
     Some [demo_relation ''gene'' ''target'' ''DDF''] \<and>
   ternary_mention_based_relations demo_legal_article =
     Some [demo_relation ''gene'' ''target'' ''DDF''] \<and>
   illegal_value demo_entity_labels (label (demo_entity ''XYZ'')) \<and>
   illegal_value demo_entity_labels (subject_label (demo_relation ''XYZ'' ''target'' ''DDF'')) \<and>
   entity_entry (demo_entity ''XYZ'') = Inr (0, 5, ''title'', ''BRCA1'', ''XYZ'') \<and>
   binary_tag_entry (demo_relation ''XYZ'' ''target'' ''DDF'') = Inr (''XYZ'', ''DDF'') \<and>
   ternary_tag_entry (demo_relation ''XYZ'' ''target'' ''DDF'') =
     Inr (''XYZ'', ''target'', ''DDF'') \<and>
   ternary_mention_entry (demo_relation ''XYZ'' ''target'' ''DDF'') =
     Inr (''BRCA1'', ''XYZ'', ''target'', ''cancer'', ''DDF'') \<and>
   NER_counts demo_ground_truth demo_entity_labels ([] @ [(''D1'', demo_legal_article)]) =
     Inr ([(''gene'', 1)], [(''gene'', 1)], [(''gene'', 1)]) \<and>
   RE_counts_subtask_621 demo_ground_truth demo_entity_labels
     ([] @ [(''D1'', demo_legal_article)]) =
     Inr ([((''gene'', ''DDF''), 1)], [((''gene'', ''DDF''), 1)], [((''gene'', ''DDF''), 1)]) \<and>
   RE_counts_subtask_622 demo_ground_truth demo_entity_labels demo_relation_labels
     ([] @ [(''D1'', demo_legal_article)]) =
     Inr ([((''gene'', ''target'', ''DDF''), 1)], [((''gene'', ''target'', ''DDF''), 1)],
          [((''gene'', ''target'', ''DDF''), 1)]) \<and>
   RE_counts_subtask_623 demo_ground_truth demo_entity_labels demo_relation_labels
     ([] @ [(''D1'', demo_legal_article)]) =
     Inr ([((''gene'', ''target'', ''DDF''), 1)], [((''gene'', ''target'', ''DDF''), 1)],
          [((''gene'', ''target'', ''DDF''), 1)])"
    by code_simp
  note th = illegal_label_fails_the_run
    [where pmid = "''D1''" and art = demo_illegal_article and predictions = demo_illegal and
       es = "[demo_entity ''gene'', demo_entity ''XYZ'']" and entity = "demo_entity ''XYZ''" and
       entity_labels = demo_entity_labels and relation_labels = demo_relation_labels and
       ground_truth = demo_ground_truth and docs_before = "[]" and docs_after = "[]" and
       art_cut = demo_legal_article and
       annotated_e = "[(''gene'', 1)]" and predicted_e = "[(''gene'', 1)]" and tp_e = "[(''gene'', 1)]" and
       es_before = "[demo_entity ''gene'']" and es_after = "[]" and
       b = 0 and e = 5 and loc = "''title''" and tx = "''BRCA1''" and l = "''XYZ''" and
       rs = "[demo_relation ''gene'' ''target'' ''DDF'', demo_relation ''XYZ'' ''target'' ''DDF'']" and
       relation = "demo_relation ''XYZ'' ''target'' ''DDF''" and
       rs_before = "[demo_relation ''gene'' ''target'' ''DDF'']" and rs_after = "[]" and
       s = "''XYZ''" and ob = "''DDF''" and p = "''target''" and
       ss = "''BRCA1''" and os = "''cancer''" and
       annotated_b = "[((''gene'', ''DDF''), 1)]" and predicted_b = "[((''gene'', ''DDF''), 1)]" and
       tp_b = "[((''gene'', ''DDF''), 1)]" and
       annotated_t = "[((''gene'', ''target'', ''DDF''), 1)]" and
       predicted_t = "[((''gene'', ''target'', ''DDF''), 1)]" and
       tp_t = "[((''gene'', ''target'', ''DDF''), 1)]" and
       annotated_m = "[((''gene'', ''target'', ''DDF''), 1)]" and
       predicted_m = "[((''gene'', ''target'', ''DDF''), 1)]" and
       tp_m = "[((''gene'', ''target'', ''DDF''), 1)]"]
  have c1: "NER_evaluation demo_ground_truth demo_entity_labels
     ([] @ (''D1'', demo_illegal_article) # []) =
     Inl (NameError ''D1'' ''label'' ''XYZ'')"
    using th [THEN conjunct2, THEN conjunct1] h by simp
  have c2: "RE_evaluation_subtask_621 demo_ground_truth demo_entity_labels
     ([] @ (''D1'', demo_illegal_article) # []) =
     Inl (NameError ''D1'' ''subject entity label'' ''XYZ'')"
    using th [THEN conjunct2, THEN conjunct2, THEN conjunct2, THEN conjunct1] h by (simp add: demo_entity_labels_def)
  have c3: "RE_evaluation_subtask_622 demo_ground_truth demo_entity_labels demo_relation_labels
     ([] @ (''D1'', demo_illegal_article) # []) = Inl (NameError ''D1'' ''subject entity label'' ''XYZ'')"
    using th [THEN conjunct2, THEN conjunct2, THEN conjunct2, THEN conjunct2, THEN conjunct2,
              THEN conjunct1] h by (simp add: demo_entity_labels_def)
  have c4: "RE_evaluation_subtask_623 demo_ground_truth demo_entity_labels demo_relation_labels
     ([] @ (''D1'', demo_illegal_article) # []) = Inl (NameError ''D1'' ''subject entity label'' ''XYZ'')"
    using th [THEN conjunct2, THEN conjunct2, THEN conjunct2, THEN conjunct2, THEN conjunct2,
              THEN conjunct2, THEN conjunct2] h by (simp add: demo_entity_labels_def)
  show ?thesis
    by (rule conjI [OF h]) (intro conjI c1 c2 c3 c4)
qed

section \<open>Micro metrics\<close>

lemma eps_pos: "0 < eps"
  by (simp add: eps_def)












section \<open>Macro metrics\<close>

lemma increment_annotated_keys:
  "set (map fst (increment_annotated l counts)) = insert l (set (map fst counts))"
proof (cases "map_of counts l")
  case None
  then show ?thesis by (simp add: increment_annotated_def)
next
  case (Some c)
  then have "l \<in> fst ` set counts"
    by (metis map_of_eq_None_iff option.distinct(1))
  with Some show ?thesis
    by (auto simp: increment_annotated_def dom_update)
qed

lemma increment_annotated_distinct:
  "distinct (map fst counts) \<Longrightarrow> distinct (map fst (increment_annotated l counts))"
proof (cases "map_of counts l")
  case None
  assume d: "distinct (map fst counts)"
  from None have "l \<notin> fst ` set counts" by (simp add: map_of_eq_None_iff)
  with d None show ?thesis
    by (simp add: increment_annotated_def)
next
  case (Some c)
  assume "distinct (map fst counts)"
  with Some show ?thesis
    by (simp add: increment_annotated_def distinct_update)
qed

lemma index_items_annotated:
  "index_items E L pmid items (index, ann) = Inr (index', ann') \<Longrightarrow>
   set (map fst ann') =
     set (map fst ann) \<union>
     L ` set (concat (map (\<lambda>item. case E item of Inl k \<Rightarrow> [] | Inr e \<Rightarrow> [e]) items)) \<and>
   (distinct (map fst ann) \<longrightarrow> distinct (map fst ann'))"
proof (induction items arbitrary: index ann)
  case Nil
  then show ?case by simp
next
  case (Cons item items)
  from Cons.prems obtain entry where
    e: "E item = Inr entry" and
    r: "index_items E L pmid items
       (AList.map_entry pmid (\<lambda>es. es @ [entry]) index, increment_annotated (L entry) ann) =
     Inr (index', ann')"
    by (auto split: sum.splits)
  from Cons.IH [OF r] e show ?case
    by (auto simp: increment_annotated_keys increment_annotated_distinct
             simp del: set_map)
qed

lemma index_ground_truth_annotated:
  "index_ground_truth fname sel E L ground_truth (index, ann) = Inr (index', ann') \<Longrightarrow>
   set (map fst ann') = set (map fst ann) \<union> L ` set (gold_entries sel E ground_truth) \<and>
   (distinct (map fst ann) \<longrightarrow> distinct (map fst ann'))"
proof (induction ground_truth arbitrary: index ann)
  case Nil
  then show ?case by (simp add: gold_entries_def)
next
  case (Cons doc ground_truth)
  obtain pmid art where doc: "doc = (pmid, art)" by (cases doc)
  define index1 where "index1 = (if pmid \<notin> fst ` set index then index @ [(pmid, [])] else index)"
  from Cons.prems doc obtain items index2 ann2 where
    s: "sel art = Some items" and
    i: "index_items E L pmid items (index1, ann) = Inr (index2, ann2)" and
    r: "index_ground_truth fname sel E L ground_truth (index2, ann2) = Inr (index', ann')"
    by (auto simp: Let_def index1_def and_then_eq_Inr split: option.splits)
  have g: "gold_entries sel E (doc # ground_truth) =
        concat (map (\<lambda>item. case E item of Inl k \<Rightarrow> [] | Inr e \<Rightarrow> [e]) items) @
        gold_entries sel E ground_truth"
    using doc s by (simp add: gold_entries_def)
  from index_items_annotated [OF i] Cons.IH [OF r] show ?case
    unfolding g by (auto simp del: set_map)
qed

lemma count_all_labels:
  assumes "count_all fname sel E L V ground_truth predictions = Inr (a, p, t)"
  shows "distinct (map fst a) \<and> set (map fst a) = L ` set (gold_entries sel E ground_truth)"
proof -
  from count_all_Inr [OF assms] obtain index where
    "index_ground_truth fname sel E L ground_truth ([], []) = Inr (index, a)"
    by blast
  from index_ground_truth_annotated [OF this] show ?thesis by simp
qed




section \<open>Repeated predictions\<close>

lemma score_items_replicate:
  assumes "E item = Inr entry" and "V entry = None" and "map_of index pmid = Some gold"
    and "entry \<in> set gold"
    and "map_of pred (L entry) = Some p0" and "map_of tp (L entry) = Some t0"
  shows "\<exists>pred' tp'.
       score_items E L V index pmid (replicate k item) (pred, tp) = Inr (pred', tp') \<and>
       map_of tp' (L entry) = Some (t0 + int k) \<and>
       map_of pred' (L entry) = Some (p0 + int k)"
  using assms(5,6)
proof (induction k arbitrary: pred tp p0 t0)
  case 0
  then show ?case by simp
next
  case (Suc k)
  have step: "score_item E L V index pmid item (pred, tp) =
          Inr (AList.update (L entry) (p0 + 1) pred, AList.update (L entry) (t0 + 1) tp)"
    using assms(1-4) Suc.prems by (simp add: score_item_def Let_def)
  have "map_of (AList.update (L entry) (p0 + 1) pred) (L entry) = Some (p0 + 1)"
    and "map_of (AList.update (L entry) (t0 + 1) tp) (L entry) = Some (t0 + 1)"
    by (simp_all add: update_conv')
  from Suc.IH [OF this] obtain pred' tp' where
    "score_items E L V index pmid (replicate k item)
       (AList.update (L entry) (p0 + 1) pred, AList.update (L entry) (t0 + 1) tp) =
     Inr (pred', tp')"
    and "map_of tp' (L entry) = Some (t0 + 1 + int k)"
    and "map_of pred' (L entry) = Some (p0 + 1 + int k)"
    by blast
  with step show ?case by (simp add: algebra_simps)
qed

text \<open>
  C10 (true positives are counted without removal). In each of the four task
  variants, when an item that passes the checks has its tuple in the ground-truth list
  of the document, the loop over \<open>k\<close> copies of the item ends without an error and has
  added \<open>k\<close> to the true-positive count and to the predicted count of its label: the
  list of the document is only tested for membership. In the small corpus the entity
  and the relation annotated once are predicted twice: the true-positive count 2
  exceeds the annotated count 1, and the micro and macro recall exceed 1.
\<close>

theorem true_positives_counted_per_occurrence:
  "(entity_entry entity = Inr entry_e \<longrightarrow> legal_entity_label entity_labels entry_e = None \<longrightarrow>
    map_of index_e pmid = Some gold_e \<longrightarrow> entry_e \<in> set gold_e \<longrightarrow>
    map_of predicted_e (entity_label entry_e) = Some p0 \<longrightarrow>
    map_of tp_e (entity_label entry_e) = Some t0 \<longrightarrow>
    (\<exists>predicted' tp'.
       score_items entity_entry entity_label (legal_entity_label entity_labels) index_e pmid
         (replicate k entity) (predicted_e, tp_e) = Inr (predicted', tp') \<and>
       map_of tp' (entity_label entry_e) = Some (t0 + int k) \<and>
       map_of predicted' (entity_label entry_e) = Some (p0 + int k))) \<and>
   (binary_tag_entry relation = Inr entry_b \<longrightarrow> legal_binary_tag entity_labels entry_b = None \<longrightarrow>
    map_of index_b pmid = Some gold_b \<longrightarrow> entry_b \<in> set gold_b \<longrightarrow>
    map_of predicted_b (entry_b) = Some p0 \<longrightarrow>
    map_of tp_b (entry_b) = Some t0 \<longrightarrow>
    (\<exists>predicted' tp'.
       score_items binary_tag_entry (\<lambda>entry. entry) (legal_binary_tag entity_labels) index_b pmid
         (replicate k relation) (predicted_b, tp_b) = Inr (predicted', tp') \<and>
       map_of tp' (entry_b) = Some (t0 + int k) \<and>
       map_of predicted' (entry_b) = Some (p0 + int k))) \<and>
   (ternary_tag_entry relation = Inr entry_t \<longrightarrow> legal_ternary_tag entity_labels relation_labels entry_t = None \<longrightarrow>
    map_of index_t pmid = Some gold_t \<longrightarrow> entry_t \<in> set gold_t \<longrightarrow>
    map_of predicted_t (entry_t) = Some p0 \<longrightarrow>
    map_of tp_t (entry_t) = Some t0 \<longrightarrow>
    (\<exists>predicted' tp'.
       score_items ternary_tag_entry (\<lambda>entry. entry) (legal_ternary_tag entity_labels relation_labels) index_t pmid
         (replicate k relation) (predicted_t, tp_t) = Inr (predicted', tp') \<and>
       map_of tp' (entry_t) = Some (t0 + int k) \<and>
       map_of predicted' (entry_t) = Some (p0 + int k))) \<and>
   (ternary_mention_entry relation = Inr entry_m \<longrightarrow> legal_ternary_mention entity_labels relation_labels entry_m = None \<longrightarrow>
    map_of index_m pmid = Some gold_m \<longrightarrow> entry_m \<in> set gold_m \<longrightarrow>
    map_of predicted_m (mention_label entry_m) = Some p0 \<longrightarrow>
    map_of tp_m (mention_label entry_m) = Some t0 \<longrightarrow>
    (\<exists>predicted' tp'.
       score_items ternary_mention_entry mention_label (legal_ternary_mention entity_labels relation_labels) index_m pmid
         (replicate k relation) (predicted_m, tp_m) = Inr (predicted', tp') \<and>
       map_of tp' (mention_label entry_m) = Some (t0 + int k) \<and>
       map_of predicted' (mention_label entry_m) = Some (p0 + int k))) \<and>
   NER_counts demo_ground_truth demo_entity_labels demo_predictions =
     Inr ([(''gene'', 1)], [(''gene'', 2)], [(''gene'', 2)]) \<and>
   (\<exists>pm fm pmi fmi. NER_evaluation demo_ground_truth demo_entity_labels demo_predictions =
      Inr (pm, 20000000000 / 10000000001, fm, pmi, 20000000000 / 10000000001, fmi)) \<and>
   RE_counts_subtask_621 demo_ground_truth demo_entity_labels demo_predictions =
     Inr ([((''gene'', ''DDF''), 1)], [((''gene'', ''DDF''), 2)], [((''gene'', ''DDF''), 2)]) \<and>
   (\<exists>pm fm pmi fmi.
      RE_evaluation_subtask_621 demo_ground_truth demo_entity_labels demo_predictions =
      Inr (pm, 20000000000 / 10000000001, fm, pmi, 20000000000 / 10000000001, fmi)) \<and>
   (1::real) < 20000000000 / 10000000001"
proof -
  have c1: "NER_counts demo_ground_truth demo_entity_labels demo_predictions =
     Inr ([(''gene'', 1)], [(''gene'', 2)], [(''gene'', 2)])"
    by code_simp
  have c2: "NER_evaluation demo_ground_truth demo_entity_labels demo_predictions =
      Inr (20000000000 / 20000000001, 20000000000 / 10000000001,
           8000000000000000000000000000000 / 6000000000600000000030000000001,
           20000000000 / 20000000001, 20000000000 / 10000000001,
           8000000000000000000000000000000 / 6000000000600000000030000000001)"
    by code_simp
  have c3: "RE_counts_subtask_621 demo_ground_truth demo_entity_labels demo_predictions =
     Inr ([((''gene'', ''DDF''), 1)], [((''gene'', ''DDF''), 2)], [((''gene'', ''DDF''), 2)])"
    by code_simp
  have c4: "RE_evaluation_subtask_621 demo_ground_truth demo_entity_labels demo_predictions =
      Inr (20000000000 / 20000000001, 20000000000 / 10000000001,
           8000000000000000000000000000000 / 6000000000600000000030000000001,
           20000000000 / 20000000001, 20000000000 / 10000000001,
           8000000000000000000000000000000 / 6000000000600000000030000000001)"
    by code_simp
  have c5: "(1::real) < 20000000000 / 10000000001" by simp
  from c2 have c2': "\<exists>pm fm pmi fmi. NER_evaluation demo_ground_truth demo_entity_labels demo_predictions =
      Inr (pm, 20000000000 / 10000000001, fm, pmi, 20000000000 / 10000000001, fmi)" by blast
  from c4 have c4': "\<exists>pm fm pmi fmi.
      RE_evaluation_subtask_621 demo_ground_truth demo_entity_labels demo_predictions =
      Inr (pm, 20000000000 / 10000000001, fm, pmi, 20000000000 / 10000000001, fmi)" by blast
  show ?thesis
    apply (intro conjI impI c1 c2' c3 c4' c5)
       apply (erule (5) score_items_replicate)+
    done
qed

theorem true_positives_counted_per_occurrence_witness:
  "entity_entry (demo_entity ''gene'') = Inr (0::int, 5::int, ''title'', ''BRCA1'', ''gene'') \<and>
   legal_entity_label demo_entity_labels (0::int, 5::int, ''title'', ''BRCA1'', ''gene'') = None \<and>
   map_of [(''D1'', [(0::int, 5::int, ''title'', ''BRCA1'', ''gene'')])] ''D1'' = Some [(0::int, 5::int, ''title'', ''BRCA1'', ''gene'')] \<and>
   (0::int, 5::int, ''title'', ''BRCA1'', ''gene'') \<in> set [(0::int, 5::int, ''title'', ''BRCA1'', ''gene'')] \<and>
   map_of [(''gene'', 0::int)] (entity_label (0::int, 5::int, ''title'', ''BRCA1'', ''gene'')) = Some 0 \<and>
   binary_tag_entry (demo_relation ''gene'' ''target'' ''DDF'') = Inr (''gene'', ''DDF'') \<and>
   legal_binary_tag demo_entity_labels (''gene'', ''DDF'') = None \<and>
   map_of [(''D1'', [(''gene'', ''DDF'')])] ''D1'' = Some [(''gene'', ''DDF'')] \<and>
   (''gene'', ''DDF'') \<in> set [(''gene'', ''DDF'')] \<and>
   map_of [((''gene'', ''DDF''), 0::int)] ((''gene'', ''DDF'')) = Some 0 \<and>
   ternary_tag_entry (demo_relation ''gene'' ''target'' ''DDF'') = Inr (''gene'', ''target'', ''DDF'') \<and>
   legal_ternary_tag demo_entity_labels demo_relation_labels (''gene'', ''target'', ''DDF'') = None \<and>
   map_of [(''D1'', [(''gene'', ''target'', ''DDF'')])] ''D1'' = Some [(''gene'', ''target'', ''DDF'')] \<and>
   (''gene'', ''target'', ''DDF'') \<in> set [(''gene'', ''target'', ''DDF'')] \<and>
   map_of [((''gene'', ''target'', ''DDF''), 0::int)] ((''gene'', ''target'', ''DDF'')) = Some 0 \<and>
   ternary_mention_entry (demo_relation ''gene'' ''target'' ''DDF'') = Inr (''BRCA1'', ''gene'', ''target'', ''cancer'', ''DDF'') \<and>
   legal_ternary_mention demo_entity_labels demo_relation_labels (''BRCA1'', ''gene'', ''target'', ''cancer'', ''DDF'') = None \<and>
   map_of [(''D1'', [(''BRCA1'', ''gene'', ''target'', ''cancer'', ''DDF'')])] ''D1'' = Some [(''BRCA1'', ''gene'', ''target'', ''cancer'', ''DDF'')] \<and>
   (''BRCA1'', ''gene'', ''target'', ''cancer'', ''DDF'') \<in> set [(''BRCA1'', ''gene'', ''target'', ''cancer'', ''DDF'')] \<and>
   map_of [((''gene'', ''target'', ''DDF''), 0::int)] (mention_label (''BRCA1'', ''gene'', ''target'', ''cancer'', ''DDF'')) = Some 0 \<and>
   (\<exists>predicted' tp'.
       score_items entity_entry entity_label (legal_entity_label demo_entity_labels)
         [(''D1'', [(0::int, 5::int, ''title'', ''BRCA1'', ''gene'')])] ''D1''
         (replicate 2 (demo_entity ''gene'')) ([(''gene'', 0::int)], [(''gene'', 0::int)]) =
         Inr (predicted', tp') \<and>
       map_of tp' (entity_label (0::int, 5::int, ''title'', ''BRCA1'', ''gene'')) = Some (0 + int 2) \<and>
       map_of predicted' (entity_label (0::int, 5::int, ''title'', ''BRCA1'', ''gene'')) = Some (0 + int 2)) \<and>
   (\<exists>predicted' tp'.
       score_items binary_tag_entry (\<lambda>entry. entry) (legal_binary_tag demo_entity_labels)
         [(''D1'', [(''gene'', ''DDF'')])] ''D1''
         (replicate 2 (demo_relation ''gene'' ''target'' ''DDF'')) ([((''gene'', ''DDF''), 0::int)], [((''gene'', ''DDF''), 0::int)]) =
         Inr (predicted', tp') \<and>
       map_of tp' ((''gene'', ''DDF'')) = Some (0 + int 2) \<and>
       map_of predicted' ((''gene'', ''DDF'')) = Some (0 + int 2)) \<and>
   (\<exists>predicted' tp'.
       score_items ternary_tag_entry (\<lambda>entry. entry) (legal_ternary_tag demo_entity_labels demo_relation_labels)
         [(''D1'', [(''gene'', ''target'', ''DDF'')])] ''D1''
         (replicate 2 (demo_relation ''gene'' ''target'' ''DDF'')) ([((''gene'', ''target'', ''DDF''), 0::int)], [((''gene'', ''target'', ''DDF''), 0::int)]) =
         Inr (predicted', tp') \<and>
       map_of tp' ((''gene'', ''target'', ''DDF'')) = Some (0 + int 2) \<and>
       map_of predicted' ((''gene'', ''target'', ''DDF'')) = Some (0 + int 2)) \<and>
   (\<exists>predicted' tp'.
       score_items ternary_mention_entry mention_label (legal_ternary_mention demo_entity_labels demo_relation_labels)
         [(''D1'', [(''BRCA1'', ''gene'', ''target'', ''cancer'', ''DDF'')])] ''D1''
         (replicate 2 (demo_relation ''gene'' ''target'' ''DDF'')) ([((''gene'', ''target'', ''DDF''), 0::int)], [((''gene'', ''target'', ''DDF''), 0::int)]) =
         Inr (predicted', tp') \<and>
       map_of tp' (mention_label (''BRCA1'', ''gene'', ''target'', ''cancer'', ''DDF'')) = Some (0 + int 2) \<and>
       map_of predicted' (mention_label (''BRCA1'', ''gene'', ''target'', ''cancer'', ''DDF'')) = Some (0 + int 2))"
proof -
  have e1: "entity_entry (demo_entity ''gene'') = Inr (0::int, 5::int, ''title'', ''BRCA1'', ''gene'')"
    by code_simp
  have e2: "legal_entity_label demo_entity_labels (0::int, 5::int, ''title'', ''BRCA1'', ''gene'') = None"
    by code_simp
  have e3: "map_of [(''D1'', [(0::int, 5::int, ''title'', ''BRCA1'', ''gene'')])] ''D1'' = Some [(0::int, 5::int, ''title'', ''BRCA1'', ''gene'')]"
    by code_simp
  have e4: "(0::int, 5::int, ''title'', ''BRCA1'', ''gene'') \<in> set [(0::int, 5::int, ''title'', ''BRCA1'', ''gene'')]"
    by code_simp
  have e5: "map_of [(''gene'', 0::int)] (entity_label (0::int, 5::int, ''title'', ''BRCA1'', ''gene'')) = Some 0"
    by code_simp
  have b1: "binary_tag_entry (demo_relation ''gene'' ''target'' ''DDF'') = Inr (''gene'', ''DDF'')"
    by code_simp
  have b2: "legal_binary_tag demo_entity_labels (''gene'', ''DDF'') = None"
    by code_simp
  have b3: "map_of [(''D1'', [(''gene'', ''DDF'')])] ''D1'' = Some [(''gene'', ''DDF'')]"
    by code_simp
  have b4: "(''gene'', ''DDF'') \<in> set [(''gene'', ''DDF'')]"
    by code_simp
  have b5: "map_of [((''gene'', ''DDF''), 0::int)] ((''gene'', ''DDF'')) = Some 0"
    by code_simp
  have t1: "ternary_tag_entry (demo_relation ''gene'' ''target'' ''DDF'') = Inr (''gene'', ''target'', ''DDF'')"
    by code_simp
  have t2: "legal_ternary_tag demo_entity_labels demo_relation_labels (''gene'', ''target'', ''DDF'') = None"
    by code_simp
  have t3: "map_of [(''D1'', [(''gene'', ''target'', ''DDF'')])] ''D1'' = Some [(''gene'', ''target'', ''DDF'')]"
    by code_simp
  have t4: "(''gene'', ''target'', ''DDF'') \<in> set [(''gene'', ''target'', ''DDF'')]"
    by code_simp
  have t5: "map_of [((''gene'', ''target'', ''DDF''), 0::int)] ((''gene'', ''target'', ''DDF'')) = Some 0"
    by code_simp
  have m1: "ternary_mention_entry (demo_relation ''gene'' ''target'' ''DDF'') = Inr (''BRCA1'', ''gene'', ''target'', ''cancer'', ''DDF'')"
    by code_simp
  have m2: "legal_ternary_mention demo_entity_labels demo_relation_labels (''BRCA1'', ''gene'', ''target'', ''cancer'', ''DDF'') = None"
    by code_simp
  have m3: "map_of [(''D1'', [(''BRCA1'', ''gene'', ''target'', ''cancer'', ''DDF'')])] ''D1'' = Some [(''BRCA1'', ''gene'', ''target'', ''cancer'', ''DDF'')]"
    by code_simp
  have m4: "(''BRCA1'', ''gene'', ''target'', ''cancer'', ''DDF'') \<in> set [(''BRCA1'', ''gene'', ''target'', ''cancer'', ''DDF'')]"
    by code_simp
  have m5: "map_of [((''gene'', ''target'', ''DDF''), 0::int)] (mention_label (''BRCA1'', ''gene'', ''target'', ''cancer'', ''DDF'')) = Some 0"
    by code_simp
  note th = true_positives_counted_per_occurrence
    [where entity = "demo_entity ''gene''" and
       relation = "demo_relation ''gene'' ''target'' ''DDF''" and
       entity_labels = demo_entity_labels and relation_labels = demo_relation_labels and
       pmid = "''D1''" and k = 2 and ?p0.0 = 0 and ?t0.0 = 0 and
       index_e = "[(''D1'', [(0::int, 5::int, ''title'', ''BRCA1'', ''gene'')])]" and entry_e = "(0::int, 5::int, ''title'', ''BRCA1'', ''gene'')" and
       gold_e = "[(0::int, 5::int, ''title'', ''BRCA1'', ''gene'')]" and predicted_e = "[(''gene'', 0::int)]" and tp_e = "[(''gene'', 0::int)]" and
       index_b = "[(''D1'', [(''gene'', ''DDF'')])]" and entry_b = "(''gene'', ''DDF'')" and
       gold_b = "[(''gene'', ''DDF'')]" and predicted_b = "[((''gene'', ''DDF''), 0::int)]" and tp_b = "[((''gene'', ''DDF''), 0::int)]" and
       index_t = "[(''D1'', [(''gene'', ''target'', ''DDF'')])]" and entry_t = "(''gene'', ''target'', ''DDF'')" and
       gold_t = "[(''gene'', ''target'', ''DDF'')]" and predicted_t = "[((''gene'', ''target'', ''DDF''), 0::int)]" and tp_t = "[((''gene'', ''target'', ''DDF''), 0::int)]" and
       index_m = "[(''D1'', [(''BRCA1'', ''gene'', ''target'', ''cancer'', ''DDF'')])]" and entry_m = "(''BRCA1'', ''gene'', ''target'', ''cancer'', ''DDF'')" and
       gold_m = "[(''BRCA1'', ''gene'', ''target'', ''cancer'', ''DDF'')]" and predicted_m = "[((''gene'', ''target'', ''DDF''), 0::int)]" and tp_m = "[((''gene'', ''target'', ''DDF''), 0::int)]"]
  note ce = th [THEN conjunct1, rule_format, OF e1 e2 e3 e4 e5 e5]
  note cb = th [THEN conjunct2, THEN conjunct1, rule_format, OF b1 b2 b3 b4 b5 b5]
  note ct = th [THEN conjunct2, THEN conjunct2, THEN conjunct1, rule_format,
                OF t1 t2 t3 t4 t5 t5]
  note cm = th [THEN conjunct2, THEN conjunct2, THEN conjunct2, THEN conjunct1, rule_format,
                OF m1 m2 m3 m4 m5 m5]
  show ?thesis
    by (intro conjI e1 e2 e3 e4 e5 b1 b2 b3 b4 b5 t1 t2 t3 t4 t5 m1 m2 m3 m4 m5 ce cb ct cm)
qed

section \<open>The ensemble vote\<close>

lemma collect_Nil [simp]: "collect [] d = d"
  by (simp add: collect_def)

lemma collect_Cons [simp]: "collect (kv # kvs) d = collect kvs (append_at (fst kv) (snd kv) d)"
  by (simp add: collect_def)

lemma collect_append: "collect (xs @ ys) d = collect ys (collect xs d)"
  by (simp add: collect_def)

lemma map_of_append_at:
  "map_of (append_at k x d) k' =
     (if k' = k then Some ((case map_of d k of None \<Rightarrow> [] | Some xs \<Rightarrow> xs) @ [x])
      else map_of d k')"
proof (cases "map_of d k")
  case None
  then show ?thesis by (auto simp: append_at_def map_add_def split: option.splits)
next
  case (Some xs)
  then show ?thesis by (simp add: append_at_def update_conv')
qed

lemma append_at_distinct:
  "distinct (map fst d) \<Longrightarrow> distinct (map fst (append_at k x d))"
  by (auto simp: append_at_def distinct_update map_of_eq_None_iff split: option.splits)

lemma collect_distinct:
  "distinct (map fst d) \<Longrightarrow> distinct (map fst (collect kvs d))"
  by (induction kvs arbitrary: d) (simp_all add: append_at_distinct)

lemma map_of_collect:
  "map_of (collect kvs d) k =
     (case map_of d k of
        None \<Rightarrow> (if filter (\<lambda>kv. fst kv = k) kvs = [] then None
                 else Some (map snd (filter (\<lambda>kv. fst kv = k) kvs)))
      | Some xs \<Rightarrow> Some (xs @ map snd (filter (\<lambda>kv. fst kv = k) kvs)))"
proof (induction kvs arbitrary: d)
  case Nil
  then show ?case by (simp split: option.splits)
next
  case (Cons kv kvs)
  show ?case
    by (simp add: Cons.IH map_of_append_at split: option.splits)
qed

lemma relation_key_paper: "relation_key task paper_id relation = Inr key \<Longrightarrow> paper_of key = paper_id"
  by (auto simp: relation_key_def raise_KeyError_def field_then_def
           split: if_splits option.splits)

lemma vote_relations_collect:
  "vote_relations task paper_id relations v = Inr v' \<Longrightarrow>
   v' = collect (concat (map (\<lambda>relation. case relation_key task paper_id relation of
                         Inl e \<Rightarrow> [] | Inr key \<Rightarrow> [(key, relation)]) relations)) v"
proof (induction relations arbitrary: v)
  case Nil
  then show ?case by simp
next
  case (Cons relation relations)
  from Cons.prems obtain key where
    k: "relation_key task paper_id relation = Inr key" and
    r: "vote_relations task paper_id relations (append_at key relation v) = Inr v'"
    by (auto simp: and_then_eq_Inr)
  from Cons.IH [OF r] k show ?case by simp
qed

lemma vote_papers_collect:
  "vote_papers task subtask_name sel papers v = Inr v' \<Longrightarrow>
   v' = collect (model_votes task sel papers) v"
proof (induction papers arbitrary: v)
  case Nil
  then show ?case by (simp add: model_votes_def)
next
  case (Cons paper papers)
  obtain paper_id content where p: "paper = (paper_id, content)" by (cases paper)
  from Cons.prems p obtain relations v1 where
    s: "sel content = Some relations" and
    a: "vote_relations task paper_id relations v = Inr v1" and
    r: "vote_papers task subtask_name sel papers v1 = Inr v'"
    by (auto simp: and_then_eq_Inr split: option.splits)
  from vote_relations_collect [OF a] Cons.IH [OF r] p s show ?case
    by (simp add: model_votes_def paper_votes_def collect_append)
qed

lemma vote_models_collect:
  "vote_models task subtask_name sel predictions v = Inr v' \<Longrightarrow>
   v' = collect (all_votes task sel predictions) v"
proof (induction predictions arbitrary: v)
  case Nil
  then show ?case by (simp add: all_votes_def)
next
  case (Cons model_predictions predictions)
  from Cons.prems obtain v1 where
    a: "vote_papers task subtask_name sel model_predictions v = Inr v1" and
    r: "vote_models task subtask_name sel predictions v1 = Inr v'"
    by (auto simp: and_then_eq_Inr)
  from vote_papers_collect [OF a] Cons.IH [OF r] show ?case
    by (simp add: all_votes_def collect_append)
qed

lemma all_votes_key:
  "(key, relation) \<in> set (all_votes task sel predictions) \<Longrightarrow>
   relation_key task (paper_of key) relation = Inr key"
proof -
  assume "(key, relation) \<in> set (all_votes task sel predictions)"
  then obtain paper_id where "relation_key task paper_id relation = Inr key"
    by (auto simp: all_votes_def model_votes_def paper_votes_def
             split: option.splits sum.splits)
  with relation_key_paper [OF this] show ?thesis by simp
qed

lemma majority_collect:
  "majority n relation_votes results = Inr results' \<Longrightarrow>
   results' = collect (representatives n relation_votes) results"
proof (induction relation_votes arbitrary: results)
  case Nil
  then show ?case by (simp add: representatives_def)
next
  case (Cons kv relation_votes)
  obtain key vs where kv: "kv = (key, vs)" by (cases kv)
  show ?case
  proof (cases "\<lceil>real n / 2\<rceil> \<le> int (length vs)")
    case True
    with Cons.prems kv obtain v rest where
      vs: "vs = v # rest" and
      r: "majority n relation_votes (append_at (paper_of key) v results) = Inr results'"
      by (auto split: list.splits)
    have "representatives n (kv # relation_votes) =
          (paper_of key, v) # representatives n relation_votes"
      using True kv vs by (simp add: representatives_def)
    with Cons.IH [OF r] show ?thesis by simp
  next
    case False
    with Cons.prems kv have r: "majority n relation_votes results = Inr results'" by simp
    have "representatives n (kv # relation_votes) = representatives n relation_votes"
      using False kv by (simp add: representatives_def)
    with Cons.IH [OF r] show ?thesis by simp
  qed
qed

lemma representatives_of_key:
  assumes "distinct (map fst relation_votes)"
    and "\<And>k vs r. (k, vs) \<in> set relation_votes \<Longrightarrow> r \<in> set vs \<Longrightarrow>
           relation_key task (paper_of k) r = Inr k"
  shows "filter (\<lambda>relation. relation_key task (paper_of key) relation = Inr key)
           (map snd (filter (\<lambda>pv. fst pv = paper_of key) (representatives n relation_votes))) =
         (case map_of relation_votes key of
            None \<Rightarrow> []
          | Some vs \<Rightarrow> if \<lceil>real n / 2\<rceil> \<le> int (length vs) then take 1 vs else [])"
  using assms
proof (induction relation_votes)
  case Nil
  then show ?case by (simp add: representatives_def)
next
  case (Cons kv relation_votes)
  obtain k vs where kv: "kv = (k, vs)" by (cases kv)
  have d: "distinct (map fst relation_votes)" and nk: "k \<notin> fst ` set relation_votes"
    using Cons.prems(1) kv by auto
  have keys: "\<And>k vs r. (k, vs) \<in> set relation_votes \<Longrightarrow> r \<in> set vs \<Longrightarrow>
           relation_key task (paper_of k) r = Inr k"
    using Cons.prems(2) by auto
  note IH = Cons.IH [OF d keys]
  have split: "representatives n (kv # relation_votes) =
        (if \<lceil>real n / 2\<rceil> \<le> int (length vs) then map (\<lambda>v. (paper_of k, v)) (take 1 vs) else []) @
        representatives n relation_votes"
    using kv by (simp add: representatives_def)
  have head: "filter (\<lambda>relation. relation_key task (paper_of key) relation = Inr key)
           (map snd (filter (\<lambda>pv. fst pv = paper_of key)
              (map (\<lambda>v. (paper_of k, v)) (take 1 vs)))) =
        (if k = key then take 1 vs else [])"
  proof (cases vs)
    case Nil
    then show ?thesis by simp
  next
    case (Cons v rest)
    have "relation_key task (paper_of k) v = Inr k"
      using Cons.prems(2) [of k vs v] kv Cons by simp
    with Cons show ?thesis by auto
  qed
  show ?case
  proof (cases "k = key")
    case True
    with nk have "map_of relation_votes key = None" by (simp add: map_of_eq_None_iff)
    with IH True kv split head show ?thesis by simp
  next
    case False
    with IH kv split head show ?thesis by simp
  qed
qed

lemma votes_of_key:
  assumes "vote_models task subtask_name sel predictions [] = Inr relation_votes"
  shows "distinct (map fst relation_votes)"
    and "map_of relation_votes key =
           (if votes_for task sel predictions key = [] then None
            else Some (votes_for task sel predictions key))"
    and "(k, vs) \<in> set relation_votes \<Longrightarrow> r \<in> set vs \<Longrightarrow>
           relation_key task (paper_of k) r = Inr k"
proof -
  from vote_models_collect [OF assms]
  have c: "relation_votes = collect (all_votes task sel predictions) []" .
  show d: "distinct (map fst relation_votes)"
    unfolding c by (rule collect_distinct) simp
  show m: "map_of relation_votes key =
           (if votes_for task sel predictions key = [] then None
            else Some (votes_for task sel predictions key))"
    unfolding c by (simp add: map_of_collect votes_for_def)
  assume "(k, vs) \<in> set relation_votes" and r: "r \<in> set vs"
  with d have "map_of relation_votes k = Some vs" by simp
  then have "vs = map snd (filter (\<lambda>kv. fst kv = k) (all_votes task sel predictions))"
    unfolding c by (simp add: map_of_collect split: if_splits)
  with r have "(k, r) \<in> set (all_votes task sel predictions)" by auto
  then show "relation_key task (paper_of k) r = Inr k" by (rule all_votes_key)
qed

lemma map_of_collect_empty:
  "(case map_of (collect kvs []) k of None \<Rightarrow> [] | Some xs \<Rightarrow> xs) =
   map snd (filter (\<lambda>kv. fst kv = k) kvs)"
  by (simp add: map_of_collect)

lemma perform_emitted:
  assumes "perform_relation_level_inference task subtask_name sel predictions = Inr results"
  shows "emitted task results key =
         (if \<lceil>real (length predictions) / 2\<rceil> \<le> int (length (votes_for task sel predictions key))
          then take 1 (votes_for task sel predictions key) else [])"
proof -
  from assms obtain relation_votes where
    v: "vote_models task subtask_name sel predictions [] = Inr relation_votes" and
    m: "majority (length predictions) relation_votes [] = Inr results"
    by (auto simp: perform_relation_level_inference_def and_then_eq_Inr)
  from majority_collect [OF m]
  have "emitted task results key =
        filter (\<lambda>relation. relation_key task (paper_of key) relation = Inr key)
           (map snd (filter (\<lambda>pv. fst pv = paper_of key)
              (representatives (length predictions) relation_votes)))"
    by (simp add: emitted_def map_of_collect_empty)
  also have "\<dots> = (case map_of relation_votes key of
            None \<Rightarrow> []
          | Some vs \<Rightarrow> if \<lceil>real (length predictions) / 2\<rceil> \<le> int (length vs)
                       then take 1 vs else [])"
    by (rule representatives_of_key [OF votes_of_key(1) [OF v] votes_of_key(3) [OF v]])
  also have "\<dots> = (if \<lceil>real (length predictions) / 2\<rceil> \<le>
                       int (length (votes_for task sel predictions key))
          then take 1 (votes_for task sel predictions key) else [])"
  proof (cases "votes_for task sel predictions key = []")
    case True
    show ?thesis unfolding votes_of_key(2) [OF v] True by simp
  next
    case False
    then show ?thesis unfolding votes_of_key(2) [OF v] by simp
  qed
  finally show ?thesis .
qed

lemma occurrences_in_model:
  "distinct (map fst kvs) \<Longrightarrow>
   length (filter (\<lambda>kv. fst kv = k) kvs) = (if k \<in> fst ` set kvs then 1 else 0)"
  by (induction kvs) (auto simp: image_iff)

lemma occurrences_are_models:
  assumes "\<And>m. m \<in> set predictions \<Longrightarrow> distinct (map fst (model_votes task sel m))"
  shows "length (votes_for task sel predictions key) = models_proposing task sel predictions key"
  using assms
proof (induction predictions)
  case Nil
  then show ?case by (simp add: votes_for_def all_votes_def models_proposing_def)
next
  case (Cons m predictions)
  have "length (votes_for task sel predictions key) = models_proposing task sel predictions key"
    using Cons by simp
  moreover have "length (filter (\<lambda>kv. fst kv = key) (model_votes task sel m)) =
        (if key \<in> fst ` set (model_votes task sel m) then 1 else 0)"
    using Cons.prems by (simp add: occurrences_in_model)
  ultimately show ?case
    by (simp add: votes_for_def all_votes_def models_proposing_def)
qed

text \<open>
  C9 (the majority of the ensemble). As stated the claim fails: the voter counts the
  relations that carry a key (\<^verbatim>\<open>len(votes)\<close>), not the models that propose it. Of the
  four prediction sets below only the first proposes the key ("D1", "gene", "DDF"),
  twice; the two votes reach the threshold 2 and the key is retained.
\<close>

theorem key_of_one_model_is_retained:
  "length demo_one_of_four = 4 \<and>
   models_proposing ''6.2.1'' binary_tag_based_relations demo_one_of_four
     (Key_621 ''D1'' ''gene'' ''DDF'') = 1 \<and>
   perform_relation_level_inference ''6.2.1'' ''binary_tag_based_relations''
     binary_tag_based_relations demo_one_of_four =
     Inr [(''D1'', [demo_relation ''gene'' ''target'' ''DDF''])] \<and>
   emitted ''6.2.1'' [(''D1'', [demo_relation ''gene'' ''target'' ''DDF''])]
     (Key_621 ''D1'' ''gene'' ''DDF'') = [demo_relation ''gene'' ''target'' ''DDF'']"
  by code_simp

text \<open>
  C9, amended. When the voter ends without an error, the relations of its result that
  carry a given key are: the first encountered relation with that key, when the number
  of relations with that key over all the prediction sets is at least
  \<open>ceil(N / 2)\<close>, \<open>N\<close> being the number of prediction sets; none otherwise. That
  number is the number of models proposing the key when no prediction set holds the
  same key twice. For \<open>N = 4\<close>, a key carried by one relation is excluded and a key
  carried by two is included.
\<close>

theorem majority_of_the_votes:
  assumes "perform_relation_level_inference task subtask_name sel predictions =
           Inr ensemble_results"
  shows "emitted task ensemble_results key =
           (if \<lceil>real (length predictions) / 2\<rceil> \<le>
               int (length (votes_for task sel predictions key))
            then take 1 (votes_for task sel predictions key) else []) \<and>
         ((\<forall>m \<in> set predictions. distinct (map fst (model_votes task sel m))) \<longrightarrow>
            length (votes_for task sel predictions key) =
            models_proposing task sel predictions key) \<and>
         (length predictions = 4 \<longrightarrow> length (votes_for task sel predictions key) = 1 \<longrightarrow>
            emitted task ensemble_results key = []) \<and>
         (length predictions = 4 \<longrightarrow> length (votes_for task sel predictions key) = 2 \<longrightarrow>
            emitted task ensemble_results key = take 1 (votes_for task sel predictions key))"
proof -
  note e = perform_emitted [OF assms, of key]
  have m: "length (votes_for task sel predictions key) =
            models_proposing task sel predictions key"
    if "\<forall>m \<in> set predictions. distinct (map fst (model_votes task sel m))"
    using that by (intro occurrences_are_models) simp
  have one: "emitted task ensemble_results key = []"
    if "length predictions = 4" "length (votes_for task sel predictions key) = 1"
    using e that by simp
  have two: "emitted task ensemble_results key = take 1 (votes_for task sel predictions key)"
    if "length predictions = 4" "length (votes_for task sel predictions key) = 2"
    using e that by simp
  from e m one two show ?thesis by blast
qed

theorem majority_of_the_votes_witness:
  "perform_relation_level_inference ''6.2.1'' ''binary_tag_based_relations''
     binary_tag_based_relations demo_two_of_four =
     Inr [(''D1'', [demo_relation ''gene'' ''target'' ''DDF''])] \<and>
   list_all (\<lambda>m. distinct (map fst (model_votes ''6.2.1'' binary_tag_based_relations m)))
     demo_two_of_four \<and>
   length demo_two_of_four = 4 \<and>
   length (votes_for ''6.2.1'' binary_tag_based_relations demo_two_of_four
             (Key_621 ''D1'' ''gene'' ''DDF'')) = 2 \<and>
   length (votes_for ''6.2.1'' binary_tag_based_relations demo_two_of_four
             (Key_621 ''D1'' ''chemical'' ''DDF'')) = 1 \<and>
   take 1 (votes_for ''6.2.1'' binary_tag_based_relations demo_two_of_four
             (Key_621 ''D1'' ''gene'' ''DDF'')) =
     [demo_relation ''gene'' ''target'' ''DDF''] \<and>
   emitted ''6.2.1'' [(''D1'', [demo_relation ''gene'' ''target'' ''DDF''])]
     (Key_621 ''D1'' ''gene'' ''DDF'') =
     take 1 (votes_for ''6.2.1'' binary_tag_based_relations demo_two_of_four
               (Key_621 ''D1'' ''gene'' ''DDF'')) \<and>
   emitted ''6.2.1'' [(''D1'', [demo_relation ''gene'' ''target'' ''DDF''])]
     (Key_621 ''D1'' ''chemical'' ''DDF'') = [] \<and>
   length (votes_for ''6.2.1'' binary_tag_based_relations demo_two_of_four
             (Key_621 ''D1'' ''gene'' ''DDF'')) =
     models_proposing ''6.2.1'' binary_tag_based_relations demo_two_of_four
       (Key_621 ''D1'' ''gene'' ''DDF'')"
proof -
  have h: "perform_relation_level_inference ''6.2.1'' ''binary_tag_based_relations''
     binary_tag_based_relations demo_two_of_four =
     Inr [(''D1'', [demo_relation ''gene'' ''target'' ''DDF''])]"
    by code_simp
  have d: "list_all (\<lambda>m. distinct (map fst (model_votes ''6.2.1'' binary_tag_based_relations m)))
     demo_two_of_four"
    by code_simp
  have n: "length demo_two_of_four = 4"
    by code_simp
  have la: "length (votes_for ''6.2.1'' binary_tag_based_relations demo_two_of_four
             (Key_621 ''D1'' ''gene'' ''DDF'')) = 2"
    by code_simp
  have lb: "length (votes_for ''6.2.1'' binary_tag_based_relations demo_two_of_four
             (Key_621 ''D1'' ''chemical'' ''DDF'')) = 1"
    by code_simp
  have f: "take 1 (votes_for ''6.2.1'' binary_tag_based_relations demo_two_of_four
             (Key_621 ''D1'' ''gene'' ''DDF'')) =
     [demo_relation ''gene'' ''target'' ''DDF'']"
    by code_simp
  from d have d': "\<forall>m \<in> set demo_two_of_four.
      distinct (map fst (model_votes ''6.2.1'' binary_tag_based_relations m))"
    by (simp add: list_all_iff)
  note ta = majority_of_the_votes [OF h, of "Key_621 ''D1'' ''gene'' ''DDF''"]
  note tb = majority_of_the_votes [OF h, of "Key_621 ''D1'' ''chemical'' ''DDF''"]
  note ca = ta [THEN conjunct2, THEN conjunct2, THEN conjunct2, rule_format, OF n la]
  note cb = tb [THEN conjunct2, THEN conjunct2, THEN conjunct1, rule_format, OF n lb]
  note cm = ta [THEN conjunct2, THEN conjunct1, THEN mp, OF d']
  show ?thesis
    by (intro conjI h d n la lb f ca cb cm)
qed

section \<open>Unsupported task variants\<close>

text \<open>
  C8 (dispatch on an unrecognised task variant). The claim is that
  \<^verbatim>\<open>compute_metrics\<close> aborts with an unsupported-task error when the subtask of a
  relation-extraction run is none of 6.2.1, 6.2.2, 6.2.3. Line 31 of the source
  \<^emph>\<open>returns\<close> the exception instead of raising it: for the subtask "6.2.4" the call
  ends normally, whatever the ground truth, the vocabularies and the predictions are,
  and its value is the \<^verbatim>\<open>ValueError\<close> instance.
\<close>

theorem compute_metrics_returns_ValueError:
  "compute_metrics ground_truth entity_labels relation_labels
     \<lparr>model_type = ''re'', subtask = ''6.2.4''\<rparr> inference_results =
   Inr (ValueError_instance ''No matching subtask'')"
  by (simp add: compute_metrics_def)

section \<open>The index and the annotated counts of the ground truth\<close>

lemma index_items_lookup:
  "index_items E L pmid items (index, ann) = Inr (index', ann') \<Longrightarrow>
   map_of index' p =
     (if p = pmid
      then map_option
             (\<lambda>es. es @ concat (map (\<lambda>item. case E item of Inl k \<Rightarrow> [] | Inr e \<Rightarrow> [e]) items))
             (map_of index pmid)
      else map_of index p)"
proof (induction items arbitrary: index ann)
  case Nil
  then show ?case by (auto simp: option.map_ident)
next
  case (Cons item items)
  from Cons.prems obtain entry where
    e: "E item = Inr entry" and
    r: "index_items E L pmid items
       (AList.map_entry pmid (\<lambda>es. es @ [entry]) index, increment_annotated (L entry) ann) =
     Inr (index', ann')"
    by (auto split: sum.splits)
  from Cons.IH [OF r] e show ?case
    by (auto simp: map_of_map_entry split: option.splits)
qed

lemma gold_entries_Cons:
  "gold_entries sel E ((pmid, art) # ground_truth) =
   (case sel art of None \<Rightarrow> []
    | Some items \<Rightarrow> concat (map (\<lambda>item. case E item of Inl k \<Rightarrow> [] | Inr e \<Rightarrow> [e]) items)) @
   gold_entries sel E ground_truth"
  by (simp add: gold_entries_def)

lemma gold_entries_Nil [simp]: "gold_entries sel E [] = []"
  by (simp add: gold_entries_def)

lemma index_ground_truth_lookup:
  "index_ground_truth fname sel E L ground_truth (index, ann) = Inr (index', ann') \<Longrightarrow>
   map_of index' p =
     (if p \<in> fst ` set index \<union> fst ` set ground_truth
      then Some ((case map_of index p of None \<Rightarrow> [] | Some es \<Rightarrow> es) @
                 gold_entries sel E (filter (\<lambda>doc. fst doc = p) ground_truth))
      else None)"
proof (induction ground_truth arbitrary: index ann)
  case Nil
  then show ?case
    by (auto simp: map_of_eq_None_iff split: option.splits)
next
  case (Cons doc ground_truth)
  obtain pmid art where doc: "doc = (pmid, art)" by (cases doc)
  define index1 where "index1 = (if pmid \<notin> fst ` set index then index @ [(pmid, [])] else index)"
  from Cons.prems doc obtain items index2 ann2 where
    s: "sel art = Some items" and
    i: "index_items E L pmid items (index1, ann) = Inr (index2, ann2)" and
    r: "index_ground_truth fname sel E L ground_truth (index2, ann2) = Inr (index', ann')"
    by (auto simp: Let_def index1_def and_then_eq_Inr split: option.splits)
  have k1: "fst ` set index1 = insert pmid (fst ` set index)"
    by (auto simp: index1_def)
  have k2: "fst ` set index2 = insert pmid (fst ` set index)"
    using index_items_keys [OF i] k1 by simp
  have m1: "map_of index1 q =
        (if q = pmid \<and> pmid \<notin> fst ` set index then Some [] else map_of index q)" for q
  proof (cases "pmid \<in> fst ` set index")
    case True
    then show ?thesis by (simp add: index1_def)
  next
    case False
    then have "map_of index pmid = None" by (simp add: map_of_eq_None_iff)
    with False show ?thesis
      by (auto simp: index1_def map_add_def split: option.splits)
  qed
  note m2 = index_items_lookup [OF i, of p]
  note IH = Cons.IH [OF r]
  show ?case
  proof (cases "p = pmid")
    case True
    show ?thesis
    proof (cases "map_of index pmid")
      case None
      then have "pmid \<notin> fst ` set index" by (simp add: map_of_eq_None_iff)
      with IH m2 m1 [of pmid] True None k2 doc s show ?thesis
        by (simp add: gold_entries_Cons)
    next
      case (Some es)
      then have "pmid \<in> fst ` set index"
        by (metis map_of_eq_None_iff option.distinct(1))
      with IH m2 m1 [of pmid] True Some k2 doc s show ?thesis
        by (simp add: gold_entries_Cons)
    qed
  next
    case False
    with IH m2 m1 [of p] k2 doc show ?thesis
      by (simp add: map_of_eq_None_iff)
  qed
qed

lemma count_of_increment_annotated:
  "count_of (increment_annotated k counts) l = count_of counts l + (if l = k then 1 else 0)"
  by (auto simp: count_of_def increment_annotated_def update_conv' map_add_def
           split: option.splits)

lemma index_items_counts:
  "index_items E L pmid items (index, ann) = Inr (index', ann') \<Longrightarrow>
   count_of ann' l =
     count_of ann l +
     int (length (filter (\<lambda>e. L e = l)
            (concat (map (\<lambda>item. case E item of Inl k \<Rightarrow> [] | Inr e \<Rightarrow> [e]) items))))"
proof (induction items arbitrary: index ann)
  case Nil
  then show ?case by simp
next
  case (Cons item items)
  from Cons.prems obtain entry where
    e: "E item = Inr entry" and
    r: "index_items E L pmid items
       (AList.map_entry pmid (\<lambda>es. es @ [entry]) index, increment_annotated (L entry) ann) =
     Inr (index', ann')"
    by (auto split: sum.splits)
  from Cons.IH [OF r] e show ?case
    by (simp add: count_of_increment_annotated)
qed

lemma index_ground_truth_counts:
  "index_ground_truth fname sel E L ground_truth (index, ann) = Inr (index', ann') \<Longrightarrow>
   count_of ann' l =
     count_of ann l + int (length (filter (\<lambda>e. L e = l) (gold_entries sel E ground_truth)))"
proof (induction ground_truth arbitrary: index ann)
  case Nil
  then show ?case by simp
next
  case (Cons doc ground_truth)
  obtain pmid art where doc: "doc = (pmid, art)" by (cases doc)
  from Cons.prems doc obtain items index1 index2 ann2 where
    s: "sel art = Some items" and
    i: "index_items E L pmid items (index1, ann) = Inr (index2, ann2)" and
    r: "index_ground_truth fname sel E L ground_truth (index2, ann2) = Inr (index', ann')"
    by (auto simp: Let_def and_then_eq_Inr split: option.splits)
  from index_items_counts [OF i, of l] Cons.IH [OF r] doc s show ?case
    by (simp add: gold_entries_Cons)
qed

text \<open>
  The ground truth seen by a run: the list of a document in the index holds the tuples
  of the items of that document, in their order, and the annotated count of a label
  is the number of tuples of the ground truth with that label.
\<close>

lemma count_all_ground_truth:
  assumes "count_all fname sel E L V ground_truth predictions = Inr (a, p, t)"
  shows "\<exists>index. index_ground_truth fname sel E L ground_truth ([], []) = Inr (index, a) \<and>
           (\<forall>pmid. map_of index pmid =
              (if pmid \<in> fst ` set ground_truth
               then Some (gold_entries sel E (filter (\<lambda>doc. fst doc = pmid) ground_truth))
               else None)) \<and>
           (\<forall>l. count_of a l =
              int (length (filter (\<lambda>e. L e = l) (gold_entries sel E ground_truth))))"
proof -
  from count_all_Inr [OF assms] obtain index where
    i: "index_ground_truth fname sel E L ground_truth ([], []) = Inr (index, a)"
    by blast
  from index_ground_truth_lookup [OF i] index_ground_truth_counts [OF i] i
  show ?thesis by (auto simp: count_of_def)
qed

section \<open>The counters of a whole run\<close>

lemma count_of_update:
  "count_of (AList.update k v counts) l = (if l = k then v else count_of counts l)"
  by (simp add: count_of_def update_conv')

lemma score_item_counts:
  assumes "score_item E L V index pmid item (pred, tp) = Inr (pred', tp')"
  shows "\<exists>entry gold. E item = Inr entry \<and> map_of index pmid = Some gold \<and>
           count_of pred' l =
             count_of pred l + (if L entry = l \<and> l \<in> fst ` set pred then 1 else 0) \<and>
           count_of tp' l =
             count_of tp l + (if L entry = l \<and> entry \<in> set gold then 1 else 0)"
proof -
  from score_item_Inr [OF assms] obtain entry gold where
    e: "E item = Inr entry" "map_of index pmid = Some gold" and
    p: "pred' = (case map_of pred (L entry) of None \<Rightarrow> pred
                    | Some c \<Rightarrow> AList.update (L entry) (c + 1) pred)" and
    t1: "entry \<in> set gold \<longrightarrow>
              (\<exists>c. map_of tp (L entry) = Some c \<and> tp' = AList.update (L entry) (c + 1) tp)" and
    t2: "entry \<notin> set gold \<longrightarrow> tp' = tp"
    by blast
  have 1: "count_of pred' l =
             count_of pred l + (if L entry = l \<and> l \<in> fst ` set pred then 1 else 0)"
  proof (cases "map_of pred (L entry)")
    case None
    then have "L entry \<notin> fst ` set pred" by (simp add: map_of_eq_None_iff)
    with None p show ?thesis by auto
  next
    case (Some c)
    then have "L entry \<in> fst ` set pred"
      by (metis map_of_eq_None_iff option.distinct(1))
    with Some p show ?thesis by (auto simp: count_of_update) (simp add: count_of_def)
  qed
  have 2: "count_of tp' l =
             count_of tp l + (if L entry = l \<and> entry \<in> set gold then 1 else 0)"
  proof (cases "entry \<in> set gold")
    case True
    with t1 obtain c where "map_of tp (L entry) = Some c" "tp' = AList.update (L entry) (c + 1) tp"
      by blast
    with True show ?thesis by (auto simp: count_of_update) (simp add: count_of_def)
  next
    case False
    with t2 show ?thesis by simp
  qed
  from e 1 2 show ?thesis by blast
qed

lemma score_item_predicted_keys:
  assumes "score_item E L V index pmid item st = Inr st'"
    and "map fst (fst st) = ks"
  shows "map fst (fst st') = ks"
proof -
  obtain pred tp pred' tp' where st: "st = (pred, tp)" "st' = (pred', tp')"
    by (cases st, cases st') auto
  from score_item_predicted [OF assms(1) [unfolded st]] assms(2) st show ?thesis
    by auto
qed

lemma score_items_counts:
  "score_items E L V index pmid items (pred, tp) = Inr (pred', tp') \<Longrightarrow>
   count_of pred' l =
     count_of pred l +
     (if l \<in> fst ` set pred
      then int (length (filter (\<lambda>e. L e = l) (entries_of E items))) else 0) \<and>
   count_of tp' l =
     count_of tp l +
     int (length (filter (\<lambda>e. L e = l \<and> e \<in> set (gold_of index pmid)) (entries_of E items)))"
proof (induction items arbitrary: pred tp)
  case Nil
  then show ?case by (simp add: entries_of_def)
next
  case (Cons item items)
  from Cons.prems obtain pred1 tp1 where
    s: "score_item E L V index pmid item (pred, tp) = Inr (pred1, tp1)" and
    r: "score_items E L V index pmid items (pred1, tp1) = Inr (pred', tp')"
    by (auto simp: and_then_eq_Inr)
  from score_item_predicted_keys [OF s, of "map fst pred"] have "map fst pred1 = map fst pred"
    by simp
  then have k: "fst ` set pred1 = fst ` set pred"
    by (metis list.set_map)
  from score_item_counts [OF s, of l] obtain entry gold where
    e: "E item = Inr entry" and g: "map_of index pmid = Some gold" and
    c: "count_of pred1 l =
       count_of pred l + (if L entry = l \<and> l \<in> fst ` set pred then 1 else 0)"
    "count_of tp1 l =
       count_of tp l + (if L entry = l \<and> entry \<in> set gold then 1 else 0)"
    by blast
  from g have g': "gold_of index pmid = gold" by (simp add: gold_of_def)
  from e have e': "entries_of E (item # items) = entry # entries_of E items"
    by (simp add: entries_of_def)
  from Cons.IH [OF r] k c show ?case
    unfolding e' g' by auto
qed

lemma predicted_entries_Cons:
  "predicted_entries sel E ((pmid, art) # predictions) =
   (case sel art of None \<Rightarrow> []
    | Some items \<Rightarrow> map (Pair pmid) (entries_of E items)) @
   predicted_entries sel E predictions"
proof -
  have "concat (map (\<lambda>item. case E item of Inl k \<Rightarrow> [] | Inr e \<Rightarrow> [(pmid, e)]) items) =
        map (Pair pmid) (entries_of E items)" for items
    by (induction items) (auto simp: entries_of_def split: sum.splits)
  then show ?thesis by (simp add: predicted_entries_def split: option.splits)
qed

lemma score_documents_counts:
  "score_documents fname sel E L V index predictions (pred, tp) = Inr (pred', tp') \<Longrightarrow>
   count_of pred' l =
     count_of pred l +
     (if l \<in> fst ` set pred
      then int (length (filter (\<lambda>pe. L (snd pe) = l) (predicted_entries sel E predictions)))
      else 0) \<and>
   count_of tp' l =
     count_of tp l +
     int (length (filter (\<lambda>pe. L (snd pe) = l \<and> snd pe \<in> set (gold_of index (fst pe)))
            (predicted_entries sel E predictions)))"
proof (induction predictions arbitrary: pred tp)
  case Nil
  then show ?case by (simp add: predicted_entries_def)
next
  case (Cons doc predictions)
  obtain pmid art where doc: "doc = (pmid, art)" by (cases doc)
  from Cons.prems doc obtain items pred1 tp1 where
    s: "sel art = Some items" and
    a: "score_items E L V index pmid items (pred, tp) = Inr (pred1, tp1)" and
    r: "score_documents fname sel E L V index predictions (pred1, tp1) = Inr (pred', tp')"
    by (auto simp: and_then_eq_Inr split: option.splits)
  have "map fst (fst (pred1, tp1)) = map fst pred"
    by (rule score_items_invariant [where P = "\<lambda>st. map fst (fst st) = map fst pred", OF _ a])
       (auto dest: score_item_predicted_keys)
  then have k: "fst ` set pred1 = fst ` set pred"
    by (metis fst_conv list.set_map)
  from score_items_counts [OF a, of l] Cons.IH [OF r] k show ?case
    unfolding doc predicted_entries_Cons s by (simp add: comp_def)
qed

lemma count_of_zero_counts [simp]: "count_of (zero_counts annotated) l = 0"
  by (auto simp: count_of_def zero_counts_def split: option.splits dest!: map_of_SomeD)

text \<open>
  The counters at the end of a run: the predicted count of an annotated label is the
  number of predicted tuples with that label, and the true-positive count of a label
  is the number of predicted tuples with that label that are in the ground-truth list
  of their document.
\<close>

lemma count_all_counts:
  assumes "count_all fname sel E L V ground_truth predictions = Inr (a, p, t)"
  shows "count_of p l =
           (if l \<in> L ` set (gold_entries sel E ground_truth)
            then int (length (filter (\<lambda>pe. L (snd pe) = l) (predicted_entries sel E predictions)))
            else 0)"
    and "count_of t l =
           int (length (filter (\<lambda>pe. L (snd pe) = l \<and>
                   snd pe \<in> set (gold_entries sel E
                                   (filter (\<lambda>doc. fst doc = fst pe) ground_truth)))
                  (predicted_entries sel E predictions)))"
proof -
  from count_all_ground_truth [OF assms] obtain index where
    i: "index_ground_truth fname sel E L ground_truth ([], []) = Inr (index, a)" and
    g: "\<And>pmid. map_of index pmid =
              (if pmid \<in> fst ` set ground_truth
               then Some (gold_entries sel E (filter (\<lambda>doc. fst doc = pmid) ground_truth))
               else None)"
    by blast
  from count_all_Inr [OF assms] i have
    s: "score_documents fname sel E L V index predictions (zero_counts a, zero_counts a) =
        Inr (p, t)"
    by auto
  have gold: "gold_of index pmid =
        gold_entries sel E (filter (\<lambda>doc. fst doc = pmid) ground_truth)" for pmid
  proof (cases "pmid \<in> fst ` set ground_truth")
    case True
    then show ?thesis by (simp add: g gold_of_def)
  next
    case False
    then have "filter (\<lambda>doc. fst doc = pmid) ground_truth = []"
      by (auto simp: filter_empty_conv)
    with False show ?thesis by (simp add: g gold_of_def)
  qed
  have keys: "fst ` set (zero_counts a) = L ` set (gold_entries sel E ground_truth)"
    using count_all_labels [OF assms] zero_counts_keys [of a]
    by (metis list.set_map)
  from score_documents_counts [OF s, of l]
  show "count_of p l =
           (if l \<in> L ` set (gold_entries sel E ground_truth)
            then int (length (filter (\<lambda>pe. L (snd pe) = l) (predicted_entries sel E predictions)))
            else 0)"
    by (simp add: keys)
  from score_documents_counts [OF s, of l]
  show "count_of t l =
           int (length (filter (\<lambda>pe. L (snd pe) = l \<and>
                   snd pe \<in> set (gold_entries sel E
                                   (filter (\<lambda>doc. fst doc = fst pe) ground_truth)))
                  (predicted_entries sel E predictions)))"
    by (simp add: gold)
qed

end
